theory Spec2Isabelle
  imports Complex_Main "HOL-Library.Word"
begin

text \<open>
  A model of the document converter: the reconstruction of paragraphs from the positioned
  text items of a PDF page and the dispatch on the input's kind (\<open>convertLocalFile\<close> in
  \<open>services/geminiService.ts\<close>), the EPUB packager \<open>createEpubBlob\<close> and the MOBI
  encoder \<open>createMobiBlob\<close> (\<open>utils/fileHelpers.ts\<close>). Each function of the source is a
  function here, under its own name; what the source takes from its environment (the
  clock, the random UUID, the loaded libraries, \<open>toLowerCase\<close>) is a parameter.
\<close>

section \<open>JavaScript values used by the converter\<close>

subsection \<open>Strings\<close>

text \<open>
  A JavaScript string is a sequence of 16-bit code units. String literals of the source
  are ASCII and are written with \<open>lit\<close>.
\<close>

type_synonym jschar = "16 word"
type_synonym jsstring = "jschar list"
type_synonym byte = "8 word"

definition lit :: "string \<Rightarrow> jsstring" where
  "lit s = map (\<lambda>c. word_of_nat (of_char c)) s"

text \<open>\<open>String.prototype.startsWith\<close> and \<open>endsWith\<close> (one argument).\<close>

definition startsWith :: "jsstring \<Rightarrow> jsstring \<Rightarrow> bool" where
  "startsWith s p = (take (length p) s = p)"

definition endsWith :: "jsstring \<Rightarrow> jsstring \<Rightarrow> bool" where
  "endsWith s p = (length p \<le> length s \<and> drop (length s - length p) s = p)"

text \<open>
  \<open>String.prototype.trim\<close> removes the code units of ECMAScript's WhiteSpace and
  LineTerminator productions from both ends.
\<close>

definition isWhiteSpace :: "jschar \<Rightarrow> bool" where
  "isWhiteSpace c = (c \<in> set [0x0009, 0x000A, 0x000B, 0x000C, 0x000D, 0x0020, 0x00A0,
     0x1680, 0x2000, 0x2001, 0x2002, 0x2003, 0x2004, 0x2005, 0x2006, 0x2007, 0x2008,
     0x2009, 0x200A, 0x2028, 0x2029, 0x202F, 0x205F, 0x3000, 0xFEFF])"

definition trim :: "jsstring \<Rightarrow> jsstring" where
  "trim s = rev (dropWhile isWhiteSpace (rev (dropWhile isWhiteSpace s)))"

subsection \<open>Numbers\<close>

text \<open>
  A JavaScript number is NaN, one of the two infinities, or a finite double. A finite
  double is given by the rational it denotes. The sign of zero is not part of the model:
  \<open>-0\<close> and \<open>0\<close> are equal, falsy and compare alike in every operation of the source.
\<close>

datatype jsnum = NaN | PosInf | NegInf | Fin rat

text \<open>
  The result of an arithmetic operation on finite doubles is its exact result rounded to
  the nearest double, ties to the even significand (IEEE 754 binary64, the only rounding of
  ECMAScript): a significand \<open>m\<close> of at most 53 bits times \<open>2^e\<close>, with \<open>e\<close> from
  \<open>-1074\<close> to \<open>971\<close>, and infinity beyond the largest double \<open>(2^53 - 1) * 2^971\<close>.
  \<open>floorLog2 a\<close> is the \<open>k\<close> with \<open>2^k \<le> a < 2^(k+1)\<close> for a positive \<open>a\<close>, found
  from the bit lengths of numerator and denominator.
\<close>

definition pow2 :: "int \<Rightarrow> rat" where
  "pow2 e = (if 0 \<le> e then 2 ^ nat e else 1 / 2 ^ nat (- e))"

function bitLength :: "int \<Rightarrow> int" where
  "bitLength n = (if n \<le> 0 then 0 else 1 + bitLength (n div 2))"
  by pat_completeness auto
termination
  by (relation "measure nat") auto

declare bitLength.simps [simp del]

definition floorLog2 :: "rat \<Rightarrow> int" where
  "floorLog2 a =
     (let k = bitLength (fst (quotient_of a)) - bitLength (snd (quotient_of a))
      in if pow2 k \<le> a then k else k - 1)"

definition roundHalfEven :: "rat \<Rightarrow> int" where
  "roundHalfEven q =
     (let f = \<lfloor>q\<rfloor>; d = q - of_int f
      in if d < 1 / 2 then f else if 1 / 2 < d then f + 1 else if even f then f else f + 1)"

definition roundDouble :: "rat \<Rightarrow> jsnum" where
  "roundDouble r =
     (if r = 0 then Fin 0
      else
        let e = max (floorLog2 \<bar>r\<bar> - 52) (- 1074);
            m = roundHalfEven (\<bar>r\<bar> / pow2 e)
        in if 971 < e \<or> (e = 971 \<and> 2 ^ 53 \<le> m) then (if 0 < r then PosInf else NegInf)
           else Fin ((if 0 < r then of_int m else - of_int m) * pow2 e))"

text \<open>The double that a decimal literal of the source or of an input denotes.\<close>

definition num :: "rat \<Rightarrow> jsnum" where
  "num r = roundDouble r"

fun jsub :: "jsnum \<Rightarrow> jsnum \<Rightarrow> jsnum" where
  "jsub NaN _ = NaN"
| "jsub _ NaN = NaN"
| "jsub (Fin a) (Fin b) = roundDouble (a - b)"
| "jsub PosInf PosInf = NaN"
| "jsub NegInf NegInf = NaN"
| "jsub PosInf _ = PosInf"
| "jsub NegInf _ = NegInf"
| "jsub (Fin a) PosInf = NegInf"
| "jsub (Fin a) NegInf = PosInf"

fun jabs :: "jsnum \<Rightarrow> jsnum" where
  "jabs NaN = NaN"
| "jabs PosInf = PosInf"
| "jabs NegInf = PosInf"
| "jabs (Fin a) = Fin \<bar>a\<bar>"

text \<open>Multiplication by a finite non-zero double, as in \<open>item.height * 1.5\<close>.\<close>

fun jscale :: "jsnum \<Rightarrow> rat \<Rightarrow> jsnum" where
  "jscale NaN _ = NaN"
| "jscale (Fin a) k = roundDouble (a * k)"
| "jscale PosInf k = (if k = 0 then NaN else if 0 < k then PosInf else NegInf)"
| "jscale NegInf k = (if k = 0 then NaN else if 0 < k then NegInf else PosInf)"

text \<open>The relational operator \<open>>\<close>: false whenever an operand is NaN.\<close>

fun jgt :: "jsnum \<Rightarrow> jsnum \<Rightarrow> bool" where
  "jgt NaN _ = False"
| "jgt _ NaN = False"
| "jgt (Fin a) (Fin b) = (b < a)"
| "jgt PosInf PosInf = False"
| "jgt PosInf _ = True"
| "jgt NegInf _ = False"
| "jgt (Fin a) PosInf = False"
| "jgt (Fin a) NegInf = True"

text \<open>Strict equality \<open>===\<close> on numbers: NaN equals nothing.\<close>

definition jseq :: "jsnum \<Rightarrow> jsnum \<Rightarrow> bool" where
  "jseq a b = (a \<noteq> NaN \<and> b \<noteq> NaN \<and> a = b)"

text \<open>ToBoolean on a number, and the operator \<open>||\<close> on two numbers.\<close>

definition truthy :: "jsnum \<Rightarrow> bool" where
  "truthy a = (a \<noteq> NaN \<and> a \<noteq> Fin 0)"

definition jor :: "jsnum \<Rightarrow> jsnum \<Rightarrow> jsnum" where
  "jor a b = (if truthy a then a else b)"

definition isFinite :: "jsnum \<Rightarrow> bool" where
  "isFinite a = (case a of Fin _ \<Rightarrow> True | _ \<Rightarrow> False)"

section \<open>Text reconstruction (\<open>convertLocalFile\<close>, the PDF branch)\<close>

subsection \<open>Text items and their coordinates\<close>

text \<open>
  A text item as PDF.js reports it: its string, its six-element transform and its height.
  The height is \<open>None\<close> when the property is missing (\<open>undefined\<close>). Reading an index
  the transform does not have gives \<open>undefined\<close>, which the arithmetic of the walk
  turns into NaN and which is not \<open>=== -1\<close>: it is modelled as NaN.
\<close>

record textItem =
  item_str :: jsstring
  transform :: "jsnum list"
  item_height :: "jsnum option"

definition at_index :: "jsnum list \<Rightarrow> nat \<Rightarrow> jsnum" where
  "at_index xs i = (if i < length xs then xs ! i else NaN)"

record item =
  str :: jsstring
  y :: jsnum
  x :: jsnum
  height :: jsnum

text \<open>\<open>item.height || 10\<close>.\<close>

definition heightOr10 :: "jsnum option \<Rightarrow> jsnum" where
  "heightOr10 h = (case h of None \<Rightarrow> Fin 10 | Some v \<Rightarrow> jor v (Fin 10))"

definition mapItem :: "textItem \<Rightarrow> item" where
  "mapItem it = \<lparr> str = item_str it, y = at_index (transform it) 5,
     x = at_index (transform it) 4, height = heightOr10 (item_height it) \<rparr>"

subsection \<open>Sorting\<close>

text \<open>
  The comparator \<open>(a, b) => b.y - a.y || a.x - b.x\<close>. \<open>Array.prototype.sort\<close> reads
  the comparator's result through \<open>SortCompare\<close>, by its sign and a NaN as 0
  (\<open>sortCompare\<close>), and is stable. When these readings are consistent on the items
  (ECMAScript's conditions: \<open>a = a\<close>, symmetry of \<open>=\<close>, transitivity of \<open>=\<close>, \<open><\<close> and
  \<open>>\<close>) they order the items in classes, every engine returns the items by class and
  in their input order inside a class, and that is what the stable insertion below
  computes: an item moves behind exactly the items it compares greater than. When the
  readings are not consistent, which for doubles needs a non-finite coordinate, the order
  is implementation-defined and \<open>sortItems\<close> gives \<open>None\<close>.
\<close>

definition compareItems :: "item \<Rightarrow> item \<Rightarrow> jsnum" where
  "compareItems a b = jor (jsub (y b) (y a)) (jsub (x a) (x b))"

definition sortCompare :: "item \<Rightarrow> item \<Rightarrow> int" where
  "sortCompare a b =
     (case compareItems a b of
        NaN \<Rightarrow> 0
      | PosInf \<Rightarrow> 1
      | NegInf \<Rightarrow> - 1
      | Fin r \<Rightarrow> (if r < 0 then - 1 else if r = 0 then 0 else 1))"

definition consistentTriple :: "item \<Rightarrow> item \<Rightarrow> item \<Rightarrow> bool" where
  "consistentTriple a b c =
     (sortCompare a a = 0
      \<and> (if sortCompare a b = 0 then sortCompare b a = 0 else True)
      \<and> (if sortCompare a b = 0 \<and> sortCompare b c = 0 then sortCompare a c = 0 else True)
      \<and> (if sortCompare a b < 0 \<and> sortCompare b c < 0 then sortCompare a c < 0 else True)
      \<and> (if 0 < sortCompare a b \<and> 0 < sortCompare b c then 0 < sortCompare a c else True))"

definition consistentComparator :: "item list \<Rightarrow> bool" where
  "consistentComparator xs =
     list_all (\<lambda>a. list_all (\<lambda>b. list_all (\<lambda>c. consistentTriple a b c) xs) xs) xs"

fun insertItem :: "item \<Rightarrow> item list \<Rightarrow> item list" where
  "insertItem a [] = [a]"
| "insertItem a (b # bs) =
     (if 0 < sortCompare a b then b # insertItem a bs else a # b # bs)"

definition sortItems :: "item list \<Rightarrow> item list option" where
  "sortItems xs = (if consistentComparator xs then Some (foldr insertItem xs []) else None)"

subsection \<open>The walk over the sorted items\<close>

record walk =
  pageHtml :: jsstring
  lastY :: jsnum
  currentParagraph :: jsstring

definition initWalk :: walk where
  "initWalk = \<lparr> pageHtml = [], lastY = Fin (- 1), currentParagraph = [] \<rparr>"

text \<open>\<open>if (currentParagraph.trim().length > 0) pageHtml += `<p>${currentParagraph.trim()}</p>`\<close>\<close>

definition flush :: "jsstring \<Rightarrow> jsstring \<Rightarrow> jsstring" where
  "flush html par =
     (if length (trim par) > 0 then html @ lit ''<p>'' @ trim par @ lit ''</p>'' else html)"

definition diffY :: "walk \<Rightarrow> item \<Rightarrow> jsnum" where
  "diffY w it = jabs (jsub (y it) (lastY w))"

text \<open>One iteration of the loop body.\<close>

definition step :: "walk \<Rightarrow> item \<Rightarrow> walk" where
  "step w it =
     (if jseq (lastY w) (Fin (- 1)) then
        w\<lparr> currentParagraph := currentParagraph w @ str it, lastY := y it \<rparr>
      else if jgt (diffY w it) (jscale (height it) (3 / 2)) then
        w\<lparr> pageHtml := flush (pageHtml w) (currentParagraph w),
           currentParagraph := str it, lastY := y it \<rparr>
      else
        w\<lparr> currentParagraph :=
             (if \<not> endsWith (currentParagraph w) (lit '' '') \<and> \<not> startsWith (str it) (lit '' '')
              then currentParagraph w @ lit '' '' else currentParagraph w) @ str it,
           lastY := y it \<rparr>)"

definition walkItems :: "item list \<Rightarrow> walk" where
  "walkItems items = foldl step initWalk items"

text \<open>
  The page's paragraphs: map, sort, walk, flush the last paragraph. The result is \<open>None\<close>
  when the order of the sort, and with it the result, is implementation-defined.
\<close>

definition reconstructPage :: "textItem list \<Rightarrow> jsstring option" where
  "reconstructPage textItems =
     (case sortItems (map mapItem textItems) of
        None \<Rightarrow> None
      | Some items \<Rightarrow>
          (let w = walkItems items
           in Some (flush (pageHtml w) (currentParagraph w))))"

definition pageBlock :: "jsstring \<Rightarrow> jsstring" where
  \<open>pageBlock html =
     (if length html > 0
      then lit ''<div class="page-content">'' @ html @ lit ''</div><hr class="page-break"/>''
      else [])\<close>

definition convertPdfPages :: "textItem list list \<Rightarrow> jsstring option" where
  "convertPdfPages pages =
     foldl (\<lambda>acc p. case acc of
                       None \<Rightarrow> None
                     | Some fullHtml \<Rightarrow>
                         (case reconstructPage p of
                            None \<Rightarrow> None
                          | Some html \<Rightarrow> Some (fullHtml @ pageBlock html)))
       (Some []) pages"

subsection \<open>Properties of one step\<close>

text \<open>
  The step reaches the same-paragraph branch: the previous \<open>y\<close> is not the marker and the
  gap is not above the threshold.
\<close>

definition continues :: "walk \<Rightarrow> item \<Rightarrow> bool" where
  "continues w it = (\<not> jseq (lastY w) (Fin (- 1)) \<and> \<not> jgt (diffY w it) (jscale (height it) (3 / 2)))"

text \<open>
  The step is a paragraph break: the open buffer is flushed and the item's text starts
  the next paragraph.
\<close>

definition forcedBreak :: "walk \<Rightarrow> item \<Rightarrow> bool" where
  "forcedBreak w it = (pageHtml (step w it) = flush (pageHtml w) (currentParagraph w)
      \<and> currentParagraph (step w it) = str it)"

text \<open>The buffer after the same-paragraph branch.\<close>

definition joined :: "jsstring \<Rightarrow> jsstring \<Rightarrow> jsstring" where
  "joined buf s = buf @ (if endsWith buf (lit '' '') \<or> startsWith s (lit '' '') then [] else lit '' '') @ s"

section \<open>Errors\<close>

text \<open>
  A thrown exception is a value: \<open>Error m\<close> is \<open>new Error(m)\<close>, and \<open>RangeError\<close> is what
  a \<open>DataView\<close> or typed-array operation throws outside its buffer. A statement that can
  throw returns \<open>error + 'a\<close>; \<open>thenDo\<close> runs the next statement unless one was thrown.
\<close>

datatype error = Error jsstring | RangeError

definition thenDo :: "error + 'a \<Rightarrow> ('a \<Rightarrow> error + 'b) \<Rightarrow> error + 'b" where
  "thenDo r f = (case r of Inl e \<Rightarrow> Inl e | Inr v \<Rightarrow> f v)"

section \<open>The MOBI encoder (\<open>createMobiBlob\<close>)\<close>

subsection \<open>\<open>TextEncoder.encode\<close>\<close>

text \<open>
  The encoder reads the code units as Unicode scalar values, a surrogate pair as one value
  and a lone surrogate as U+FFFD, and writes each value in UTF-8.
\<close>

definition isHighSurrogate :: "jschar \<Rightarrow> bool" where
  "isHighSurrogate c = (0xD800 \<le> c \<and> c \<le> 0xDBFF)"

definition isLowSurrogate :: "jschar \<Rightarrow> bool" where
  "isLowSurrogate c = (0xDC00 \<le> c \<and> c \<le> 0xDFFF)"

definition scalarOf :: "jschar \<Rightarrow> nat" where
  "scalarOf c = (if isHighSurrogate c \<or> isLowSurrogate c then 0xFFFD else unat c)"

fun scalarValues :: "jsstring \<Rightarrow> nat list" where
  "scalarValues [] = []"
| "scalarValues [c] = [scalarOf c]"
| "scalarValues (c # d # cs) =
     (if isHighSurrogate c \<and> isLowSurrogate d
      then (0x10000 + (unat c - 0xD800) * 0x400 + (unat d - 0xDC00)) # scalarValues cs
      else scalarOf c # scalarValues (d # cs))"

definition utf8 :: "nat \<Rightarrow> byte list" where
  "utf8 n =
     (if n < 0x80 then [of_nat n]
      else if n < 0x800 then [of_nat (0xC0 + n div 0x40), of_nat (0x80 + n mod 0x40)]
      else if n < 0x10000 then
        [of_nat (0xE0 + n div 0x1000), of_nat (0x80 + n div 0x40 mod 0x40), of_nat (0x80 + n mod 0x40)]
      else
        [of_nat (0xF0 + n div 0x40000), of_nat (0x80 + n div 0x1000 mod 0x40),
         of_nat (0x80 + n div 0x40 mod 0x40), of_nat (0x80 + n mod 0x40)])"

definition stringToUint8Array :: "jsstring \<Rightarrow> byte list" where
  "stringToUint8Array s = concat (map utf8 (scalarValues s))"

subsection \<open>\<open>DataView\<close> over an \<open>ArrayBuffer\<close>\<close>

text \<open>
  The buffer is the list of its bytes. A setter converts its value modulo the field's
  width, writes big-endian (\<open>littleEndian = false\<close> in every call of the source) and throws
  \<open>RangeError\<close> when the field does not fit in the buffer. The getters are the reader's
  side of the same interface.
\<close>

definition setUint8 :: "nat \<Rightarrow> nat \<Rightarrow> byte list \<Rightarrow> error + byte list" where
  "setUint8 byteOffset v buf =
     (if byteOffset + 1 \<le> length buf then Inr (buf[byteOffset := of_nat v]) else Inl RangeError)"

definition setUint16 :: "nat \<Rightarrow> nat \<Rightarrow> byte list \<Rightarrow> error + byte list" where
  "setUint16 byteOffset v buf =
     (if byteOffset + 2 \<le> length buf
      then Inr (buf[byteOffset := of_nat (v div 0x100), byteOffset + 1 := of_nat v])
      else Inl RangeError)"

definition setUint32 :: "nat \<Rightarrow> nat \<Rightarrow> byte list \<Rightarrow> error + byte list" where
  "setUint32 byteOffset v buf =
     (if byteOffset + 4 \<le> length buf
      then Inr (buf[byteOffset := of_nat (v div 0x1000000), byteOffset + 1 := of_nat (v div 0x10000),
                    byteOffset + 2 := of_nat (v div 0x100), byteOffset + 3 := of_nat v])
      else Inl RangeError)"

definition getUint16 :: "byte list \<Rightarrow> nat \<Rightarrow> nat option" where
  "getUint16 buf byteOffset =
     (if byteOffset + 2 \<le> length buf
      then Some (unat (buf ! byteOffset) * 0x100 + unat (buf ! (byteOffset + 1)))
      else None)"

definition getUint32 :: "byte list \<Rightarrow> nat \<Rightarrow> nat option" where
  "getUint32 buf byteOffset =
     (if byteOffset + 4 \<le> length buf
      then Some (unat (buf ! byteOffset) * 0x1000000 + unat (buf ! (byteOffset + 1)) * 0x10000
                 + unat (buf ! (byteOffset + 2)) * 0x100 + unat (buf ! (byteOffset + 3)))
      else None)"

text \<open>A sequence of statements on the view, stopping at the first one that throws.\<close>

definition runWrites :: "(byte list \<Rightarrow> error + byte list) list \<Rightarrow> byte list \<Rightarrow> error + byte list" where
  "runWrites ws buf = foldl thenDo (Inr buf) ws"

text \<open>\<open>writeString\<close>: \<open>length\<close> bytes, the string's UTF-8 bytes and then zeros.\<close>

definition writeString :: "nat \<Rightarrow> jsstring \<Rightarrow> nat \<Rightarrow> byte list \<Rightarrow> error + byte list" where
  "writeString offset s len buf =
     (let bytes = stringToUint8Array s
      in runWrites
           (map (\<lambda>i. setUint8 (offset + i) (if i < length bytes then unat (bytes ! i) else 0)) [0..<len])
           buf)"

text \<open>
  \<open>new Uint8Array(buffer, byteOffset, len).set(src)\<close>: the view must lie inside the buffer
  and the source must fit in the view.
\<close>

definition setBytes :: "nat \<Rightarrow> nat \<Rightarrow> byte list \<Rightarrow> byte list \<Rightarrow> error + byte list" where
  "setBytes byteOffset len src buf =
     (if byteOffset + len \<le> length buf \<and> length src \<le> len
      then Inr (take byteOffset buf @ src @ drop (byteOffset + length src) buf)
      else Inl RangeError)"

subsection \<open>The encoder\<close>

definition NAME_LEN :: nat where "NAME_LEN = 32"
definition PDB_HEADER_LEN :: nat where "PDB_HEADER_LEN = 78"
definition RECORD_INFO_LEN :: nat where "RECORD_INFO_LEN = 8"
definition PALMDOC_HEADER_LEN :: nat where "PALMDOC_HEADER_LEN = 16"
definition MOBI_HEADER_LEN :: nat where "MOBI_HEADER_LEN = 232"
definition EXTH_HEADER_LEN :: nat where "EXTH_HEADER_LEN = 0"
definition RECORD_0_LEN :: nat where
  "RECORD_0_LEN = PALMDOC_HEADER_LEN + MOBI_HEADER_LEN + EXTH_HEADER_LEN"
definition numRecords :: nat where "numRecords = 2"

text \<open>The default value of the parameter \<open>title\<close>, used when the argument is absent.\<close>

definition titleOrDefault :: "jsstring option \<Rightarrow> jsstring" where
  "titleOrDefault t = (case t of None \<Rightarrow> lit ''Converted E-Book'' | Some s \<Rightarrow> s)"

definition fullContent :: "jsstring \<Rightarrow> jsstring \<Rightarrow> jsstring" where
  "fullContent title htmlContent =
     lit ''<html><head><title>'' @ title @ lit ''</title></head><body><h1>'' @ title @ lit ''</h1>''
       @ htmlContent @ lit ''</body></html>''"

record blob =
  blobBytes :: "byte list"
  blobType :: jsstring

text \<open>
  \<open>dateNow\<close> is the value of \<open>Date.now()\<close>. The buffer is allocated zeroed; the allocation
  itself is taken to succeed.
\<close>

definition createMobiBlob :: "nat \<Rightarrow> jsstring \<Rightarrow> jsstring option \<Rightarrow> error + blob" where
  "createMobiBlob dateNow htmlContent titleArg =
     (let title = titleOrDefault titleArg;
          contentBytes = stringToUint8Array (fullContent title htmlContent);
          contentLen = length contentBytes;
          totalLen = PDB_HEADER_LEN + numRecords * RECORD_INFO_LEN + RECORD_0_LEN + contentLen;
          buffer = replicate totalLen 0;
          now = dateNow div 1000 + 2082844800;
          currentOffset0 = PDB_HEADER_LEN + numRecords * RECORD_INFO_LEN;
          currentOffset1 = currentOffset0 + RECORD_0_LEN;
          rec0Start = PDB_HEADER_LEN + numRecords * RECORD_INFO_LEN;
          mobiStart = rec0Start + PALMDOC_HEADER_LEN;
          contentStart = rec0Start + RECORD_0_LEN
      in thenDo
           (runWrites
              [writeString 0 (take 31 title) NAME_LEN,
               setUint16 32 0,
               setUint16 34 0,
               setUint32 36 now,
               setUint32 40 now,
               setUint32 44 0,
               setUint32 48 0,
               setUint32 52 0,
               setUint32 56 0,
               writeString 60 (lit ''BOOK'') 4,
               writeString 64 (lit ''MOBI'') 4,
               setUint32 68 1,
               setUint32 72 0,
               setUint16 76 numRecords,
               setUint32 78 currentOffset0,
               setUint32 82 0,
               setUint32 86 currentOffset1,
               setUint32 90 2,
               setUint16 rec0Start 1,
               setUint16 (rec0Start + 2) 0,
               setUint32 (rec0Start + 4) contentLen,
               setUint16 (rec0Start + 8) 1,
               setUint16 (rec0Start + 10) 4096,
               setUint32 (rec0Start + 12) 0,
               writeString mobiStart (lit ''MOBI'') 4,
               setUint32 (mobiStart + 4) MOBI_HEADER_LEN,
               setUint32 (mobiStart + 8) 2,
               setUint32 (mobiStart + 12) 65001,
               setUint32 (mobiStart + 16) 123456789,
               setUint32 (mobiStart + 20) 6,
               setUint32 (mobiStart + 80) 0,
               setUint32 (mobiStart + 84) 0,
               setUint32 (mobiStart + 88) 0,
               setUint16 (mobiStart + 128) 0]
              buffer)
           (\<lambda>buffer. thenDo (setBytes contentStart contentLen contentBytes buffer)
              (\<lambda>buffer. Inr \<lparr> blobBytes = buffer, blobType = lit ''application/x-mobipocket-ebook'' \<rparr>)))"

subsection \<open>The buffer after a run of writes\<close>

text \<open>
  \<open>blit off bs buf\<close> is \<open>buf\<close> with the bytes \<open>bs\<close> written from \<open>off\<close> on, and
  \<open>padTo len bs\<close> is \<open>bs\<close> cut or zero-padded to \<open>len\<close> bytes: what \<open>writeString\<close>
  leaves in the buffer.
\<close>

fun blit :: "nat \<Rightarrow> byte list \<Rightarrow> byte list \<Rightarrow> byte list" where
  "blit off [] buf = buf"
| "blit off (b # bs) buf = blit (Suc off) bs (buf[off := b])"

definition padTo :: "nat \<Rightarrow> byte list \<Rightarrow> byte list" where
  "padTo len bs = map (\<lambda>i. if i < length bs then bs ! i else 0) [0..<len]"

section \<open>The EPUB packager (\<open>createEpubBlob\<close>)\<close>

subsection \<open>The archive builder\<close>

text \<open>
  Modelled from the spec: the archive builder JSZip, an external library that the source
  only declares (\<open>declare const JSZip: any\<close>). The spec gives it as a builder over entries
  of path, content and compression mode that yields a stream tagged with a MIME type. The
  model keeps the entries in the order of their insertion: \<open>file\<close> replaces the entry of
  the same path or appends a new one, \<open>folder\<close> adds the folder's entry when it is new and
  returns the prefix for the files under it, \<open>generateAsync\<close> yields the entries with the
  MIME type. The compression of an entry is the one its \<open>file\<close> call names, if any.
\<close>

datatype compression = STORE | DEFLATE

record zipEntry =
  entryName :: jsstring
  entryData :: jsstring
  entryDir :: bool
  entryCompression :: "compression option"

type_synonym jszip = "zipEntry list"

definition hasEntry :: "jsstring \<Rightarrow> jszip \<Rightarrow> bool" where
  "hasEntry n files = list_ex (\<lambda>f. entryName f = n) files"

definition zipFile :: "jsstring \<Rightarrow> jsstring \<Rightarrow> jsstring \<Rightarrow> compression option \<Rightarrow> jszip \<Rightarrow> jszip" where
  "zipFile dir n d c files =
     (let e = \<lparr> entryName = dir @ n, entryData = d, entryDir = False, entryCompression = c \<rparr>
      in if hasEntry (dir @ n) files
         then map (\<lambda>f. if entryName f = dir @ n then e else f) files
         else files @ [e])"

definition zipFolder :: "jsstring \<Rightarrow> jsstring \<Rightarrow> jszip \<Rightarrow> jsstring \<times> jszip" where
  "zipFolder dir n files =
     (let p = dir @ n @ lit ''/''
      in (p, if hasEntry p files then files
             else files @ [\<lparr> entryName = p, entryData = [], entryDir = True, entryCompression = None \<rparr>]))"

definition zipData :: "jsstring \<Rightarrow> jszip \<Rightarrow> jsstring option" where
  "zipData n files = map_option entryData (find (\<lambda>f. entryName f = n) files)"

record archive =
  archiveFiles :: jszip
  archiveMimeType :: jsstring

subsection \<open>The documents of the package\<close>

text \<open>A template's literal text, line by line; the lines are joined by a line feed.\<close>

fun textLines :: "string list \<Rightarrow> jsstring" where
  "textLines [] = []"
| "textLines [l] = lit l"
| "textLines (l # m # ls) = lit l @ 0x0A # textLines (m # ls)"

definition containerXml :: "jsstring" where
  \<open>containerXml =
     textLines
       [''<?xml version="1.0"?>'',
        ''<container version="1.0" xmlns="urn:oasis:names:tc:opendocument:xmlns:container">'',
        ''   <rootfiles>'',
        ''      <rootfile full-path="OEBPS/content.opf" media-type="application/oebps-package+xml"/>'',
        ''   </rootfiles>'',
        ''</container>'']\<close>

definition css :: "jsstring" where
  \<open>css =
     textLines
       ['''',
        ''    body { font-family: serif; line-height: 1.5; margin: 5%; }'',
        ''    p { margin-bottom: 1em; text-indent: 0; }'',
        ''    h1, h2, h3 { font-family: sans-serif; margin-top: 1.5em; page-break-after: avoid; }'',
        ''    img { max-width: 100%; height: auto; }'',
        ''  '']\<close>

definition xhtmlContent :: "jsstring \<Rightarrow> jsstring \<Rightarrow> jsstring" where
  \<open>xhtmlContent title htmlContent =
     textLines
       [''<?xml version="1.0" encoding="utf-8"?>'',
        ''<!DOCTYPE html PUBLIC "-//W3C//DTD XHTML 1.1//EN" "http://www.w3.org/TR/xhtml11/DTD/xhtml11.dtd">'',
        ''<html xmlns="http://www.w3.org/1999/xhtml">'',
        ''<head>'',
        ''  <title>'']
     @ title
     @ textLines
       [''</title>'',
        ''  <link rel="stylesheet" type="text/css" href="style.css"/>'',
        ''</head>'',
        ''<body>'',
        ''  <h1>'']
     @ title
     @ textLines
       [''</h1>'',
        ''  '']
     @ htmlContent
     @ textLines
       ['''',
        ''</body>'',
        ''</html>'']\<close>

definition contentOpf :: "jsstring \<Rightarrow> jsstring \<Rightarrow> jsstring" where
  \<open>contentOpf title uuid =
     textLines
       [''<?xml version="1.0" encoding="UTF-8"?>'',
        ''<package xmlns="http://www.idpf.org/2007/opf" unique-identifier="BookID" version="2.0">'',
        ''   <metadata xmlns:dc="http://purl.org/dc/elements/1.1/" xmlns:opf="http://www.idpf.org/2007/opf">'',
        ''      <dc:title>'']
     @ title
     @ textLines
       [''</dc:title>'',
        ''      <dc:language>en</dc:language>'',
        ''      <dc:identifier id="BookID" opf:scheme="UUID">'']
     @ uuid
     @ textLines
       [''</dc:identifier>'',
        ''      <dc:creator>Offline Converter</dc:creator>'',
        ''   </metadata>'',
        ''   <manifest>'',
        ''      <item id="ncx" href="toc.ncx" media-type="application/x-dtbncx+xml"/>'',
        ''      <item id="style" href="style.css" media-type="text/css"/>'',
        ''      <item id="content" href="content.xhtml" media-type="application/xhtml+xml"/>'',
        ''   </manifest>'',
        ''   <spine toc="ncx">'',
        ''      <itemref idref="content"/>'',
        ''   </spine>'',
        ''</package>'']\<close>

definition tocNcx :: "jsstring \<Rightarrow> jsstring \<Rightarrow> jsstring" where
  \<open>tocNcx uuid title =
     textLines
       [''<?xml version="1.0" encoding="UTF-8"?>'',
        ''<ncx xmlns="http://www.daisy.org/z3986/2005/ncx/" version="2005-1">'',
        ''   <head>'',
        ''      <meta name="dtb:uid" content="'']
     @ uuid
     @ textLines
       [''"/>'',
        ''      <meta name="dtb:depth" content="1"/>'',
        ''      <meta name="dtb:totalPageCount" content="0"/>'',
        ''      <meta name="dtb:maxPageNumber" content="0"/>'',
        ''   </head>'',
        ''   <docTitle>'',
        ''      <text>'']
     @ title
     @ textLines
       [''</text>'',
        ''   </docTitle>'',
        ''   <navMap>'',
        ''      <navPoint id="navPoint-1" playOrder="1">'',
        ''         <navLabel>'',
        ''            <text>Start</text>'',
        ''         </navLabel>'',
        ''         <content src="content.xhtml"/>'',
        ''      </navPoint>'',
        ''   </navMap>'',
        ''</ncx>'']\<close>

subsection \<open>The packager\<close>

text \<open>
  \<open>jszipLoaded\<close> says whether the global \<open>JSZip\<close> is defined, and \<open>randomUUID\<close> is the
  string that \<open>crypto.randomUUID()\<close> returns in this invocation.
\<close>

definition createEpubBlob :: "bool \<Rightarrow> jsstring \<Rightarrow> jsstring \<Rightarrow> jsstring option \<Rightarrow> error + archive" where
  "createEpubBlob jszipLoaded randomUUID htmlContent titleArg =
     (if \<not> jszipLoaded then Inl (Error (lit ''JSZip library not loaded. Check internet connection.''))
      else
        let title = titleOrDefault titleArg;
            zip = [];
            uuid = lit ''urn:uuid:'' @ randomUUID;
            zip = zipFile [] (lit ''mimetype'') (lit ''application/epub+zip'') (Some STORE) zip;
            (metaInf, zip) = zipFolder [] (lit ''META-INF'') zip;
            zip = zipFile metaInf (lit ''container.xml'') containerXml None zip;
            (oebps, zip) = zipFolder [] (lit ''OEBPS'') zip;
            zip = zipFile oebps (lit ''style.css'') css None zip;
            zip = zipFile oebps (lit ''content.xhtml'') (xhtmlContent title htmlContent) None zip;
            zip = zipFile oebps (lit ''content.opf'') (contentOpf title uuid) None zip;
            zip = zipFile oebps (lit ''toc.ncx'') (tocNcx uuid title) None zip
        in Inr \<lparr> archiveFiles = zip, archiveMimeType = lit ''application/epub+zip'' \<rparr>)"

section \<open>The normalizer (\<open>convertLocalFile\<close>)\<close>

text \<open>
  The file's declared type and name. The two libraries are the globals \<open>window.mammoth\<close>
  and \<open>window.pdfjsLib\<close>, \<open>None\<close> when not loaded; a loaded library maps the bytes to its
  result, or to the message of the error it throws. \<open>String.prototype.toLowerCase\<close> is a
  parameter.
\<close>

record jsfile =
  file_type :: jsstring
  file_name :: jsstring

record mammothResult =
  mammoth_value :: jsstring
  mammoth_messages :: "jsstring list"

record window =
  mammoth :: "(byte list \<Rightarrow> jsstring + mammothResult) option"
  pdfjsLib :: "(byte list \<Rightarrow> jsstring + textItem list list) option"

text \<open>
  The statements of the \<open>try\<close> block: \<open>Inr\<close> the returned string, \<open>Inl\<close> the message of
  the error thrown. The result is \<open>None\<close> when it is implementation-defined, which happens
  only in the PDF branch, for a page whose sort order is.
\<close>

definition convertBody ::
  "window \<Rightarrow> jsstring \<Rightarrow> jsstring \<Rightarrow> byte list \<Rightarrow> jsstring option \<Rightarrow> (jsstring + jsstring) option" where
  "convertBody win fileType fileName arrayBuffer textData =
     (if fileType = lit ''text/html'' \<or> endsWith fileName (lit ''.html'') \<or> endsWith fileName (lit ''.htm'')
      then Some (Inr (case textData of None \<Rightarrow> [] | Some t \<Rightarrow> t))
      else if fileType = lit ''application/vnd.openxmlformats-officedocument.wordprocessingml.document''
              \<or> endsWith fileName (lit ''.docx'')
      then (case mammoth win of
              None \<Rightarrow> Some (Inl (lit ''Mammoth library not loaded''))
            | Some convertToHtml \<Rightarrow>
                (case convertToHtml arrayBuffer of
                   Inl m \<Rightarrow> Some (Inl m)
                 | Inr result \<Rightarrow> Some (Inr (mammoth_value result))))
      else if fileType = lit ''application/pdf'' \<or> endsWith fileName (lit ''.pdf'')
      then (case pdfjsLib win of
              None \<Rightarrow> Some (Inl (lit ''PDF.js library not loaded''))
            | Some getDocument \<Rightarrow>
                (case getDocument arrayBuffer of
                   Inl m \<Rightarrow> Some (Inl m)
                 | Inr pages \<Rightarrow> map_option Inr (convertPdfPages pages)))
      else Some (Inl (lit ''Unsupported file type for offline conversion.'')))"

text \<open>The \<open>catch\<close> block rethrows every error under one prefix.\<close>

definition convertLocalFile ::
  "(jsstring \<Rightarrow> jsstring) \<Rightarrow> window \<Rightarrow> jsfile \<Rightarrow> byte list \<Rightarrow> jsstring option
     \<Rightarrow> (error + jsstring) option" where
  "convertLocalFile toLowerCase win f arrayBuffer textData =
     (let fileType = file_type f;
          fileName = toLowerCase (file_name f)
      in case convertBody win fileType fileName arrayBuffer textData of
           None \<Rightarrow> None
         | Some (Inl message) \<Rightarrow> Some (Inl (Error (lit ''Failed to convert locally: '' @ message)))
         | Some (Inr html) \<Rightarrow> Some (Inr html))"

text \<open>\<open>toLowerCase\<close> on strings of ASCII letters, digits and punctuation.\<close>

definition asciiLower :: "jsstring \<Rightarrow> jsstring" where
  "asciiLower s = map (\<lambda>c. if 0x41 \<le> c \<and> c \<le> 0x5A then c + 0x20 else c) s"

text \<open>\<open>String.prototype.includes\<close>.\<close>

definition stringIncludes :: "jsstring \<Rightarrow> jsstring \<Rightarrow> bool" where
  "stringIncludes s p = list_ex (\<lambda>i. startsWith (drop i s) p) [0..<Suc (length s)]"

section \<open>Theorems: text reconstruction\<close>

lemma step_split:
  "\<not> jseq (lastY w) (Fin (- 1)) \<Longrightarrow> jgt (diffY w it) (jscale (height it) (3 / 2)) \<Longrightarrow>
   step w it = w\<lparr> pageHtml := flush (pageHtml w) (currentParagraph w),
                   currentParagraph := str it, lastY := y it \<rparr>"
  by (simp add: step_def)

lemma step_merge:
  "continues w it \<Longrightarrow>
   step w it = w\<lparr> currentParagraph := joined (currentParagraph w) (str it), lastY := y it \<rparr>"
  by (simp add: step_def continues_def joined_def)

lemma jgt_irrefl: "\<not> jgt a a"
  by (cases a) simp_all

lemma diffY_NaN: "y it = NaN \<Longrightarrow> diffY w it = NaN"
  by (simp add: diffY_def)

lemma diffY_infinite:
  "y it = PosInf \<or> y it = NegInf \<Longrightarrow> isFinite (lastY w) \<Longrightarrow> diffY w it = PosInf"
  by (cases "lastY w") (auto simp: diffY_def isFinite_def)

lemma roundDouble_0 [simp]: "roundDouble 0 = Fin 0"
  by (simp add: roundDouble_def)

lemma jsub_self: "jsub v v = NaN \<or> jsub v v = Fin 0"
  by (cases v) simp_all

lemma sortCompare_refl: "sortCompare a a = 0"
  using jsub_self [of "y a"] jsub_self [of "x a"]
  by (auto simp: sortCompare_def compareItems_def jor_def truthy_def)

lemma sortCompare_y:
  "jsub (y b) (y a) = Fin r \<Longrightarrow> r \<noteq> 0 \<Longrightarrow> sortCompare a b = (if r < 0 then - 1 else 1)"
  by (simp add: sortCompare_def compareItems_def jor_def truthy_def)

lemma pow2_nat: "pow2 (int n) = 2 ^ n"
  by (simp add: pow2_def)

lemma pow2_pos: "0 < pow2 e"
  by (simp add: pow2_def)

lemma pow2_Suc: "pow2 (e + 1) = 2 * pow2 e"
proof (cases "0 \<le> e")
  case True
  then show ?thesis by (simp add: pow2_def nat_add_distrib)
next
  case False
  then obtain k where k: "e = - int (Suc k)"
    by (metis add.inverse_inverse neg_int_cases not_le Suc_pred' of_nat_0_less_iff neg_0_less_iff_less)
  show ?thesis
  proof (cases k)
    case 0
    with k show ?thesis by (simp add: pow2_def)
  next
    case (Suc j)
    with k have "nat (- e) = Suc (Suc j)" "nat (- (e + 1)) = Suc j" "\<not> 0 \<le> e" "\<not> 0 \<le> e + 1"
      by simp_all
    then show ?thesis by (simp add: pow2_def)
  qed
qed

lemma bitLength_bounds:
  "0 < n \<Longrightarrow> \<exists>c. bitLength n = int (Suc c) \<and> 2 ^ c \<le> n \<and> n < 2 ^ Suc c"
proof (induction n rule: bitLength.induct)
  case (1 n)
  have bl: "bitLength n = 1 + bitLength (n div 2)"
    using 1(2) by (simp add: bitLength.simps [of n])
  show ?case
  proof (cases "0 < n div 2")
    case False
    with 1(2) have n1: "n = 1" by linarith
    have "bitLength 0 = 0" by (simp add: bitLength.simps [of 0])
    then have "bitLength n = int (Suc 0) \<and> 2 ^ 0 \<le> n \<and> n < 2 ^ Suc 0"
      using bl n1 by simp
    then show ?thesis by blast
  next
    case True
    then obtain c where c: "bitLength (n div 2) = int (Suc c)" "2 ^ c \<le> n div 2" "n div 2 < 2 ^ Suc c"
      using 1(1) 1(2) by fastforce
    have "bitLength n = int (Suc (Suc c))" using bl c(1) by simp
    moreover have "2 ^ Suc c \<le> n"
      using c(2) unfolding power_Suc by linarith
    moreover have "n < 2 ^ Suc (Suc c)"
      using c(3) unfolding power_Suc by linarith
    ultimately show ?thesis by blast
  qed
qed

text \<open>\<open>floorLog2\<close> is the binary exponent of a positive rational.\<close>

lemma floorLog2_bounds:
  assumes "0 < a"
  shows "pow2 (floorLog2 a) \<le> a \<and> a < pow2 (floorLog2 a + 1)"
proof -
  obtain p q where pq: "quotient_of a = (p, q)" by (cases "quotient_of a")
  have q: "0 < q" using pq by (rule quotient_of_denom_pos)
  have a: "a = of_int p / of_int q" using pq by (rule quotient_of_div)
  have p: "0 < p" using assms q by (simp add: a zero_less_divide_iff)
  obtain c where c: "bitLength p = int (Suc c)" "2 ^ c \<le> p" "p < 2 ^ Suc c"
    using bitLength_bounds [OF p] by blast
  obtain d where d: "bitLength q = int (Suc d)" "2 ^ d \<le> q" "q < 2 ^ Suc d"
    using bitLength_bounds [OF q] by blast
  define k where "k = int c - int d"
  have cr: "(2 :: rat) ^ c \<le> of_int p" "(of_int p :: rat) < 2 ^ Suc c"
    using c(2,3) by (metis of_int_le_iff of_int_numeral of_int_power, metis of_int_less_iff of_int_numeral of_int_power)
  have dr: "(2 :: rat) ^ d \<le> of_int q" "(of_int q :: rat) < 2 ^ Suc d"
    using d(2,3) by (metis of_int_le_iff of_int_numeral of_int_power, metis of_int_less_iff of_int_numeral of_int_power)
  have qr: "(0 :: rat) < of_int q" using q by simp
  have k2: "pow2 k * 2 ^ d = 2 ^ c"
  proof (cases "d \<le> c")
    case True
    then obtain m where m: "c = d + m" by (auto simp: le_iff_add)
    then have "k = int m" by (simp add: k_def)
    then show ?thesis by (simp add: pow2_nat m power_add)
  next
    case False
    then obtain m where m: "d = c + Suc m" by (metis less_imp_Suc_add not_le add_Suc_right)
    then have "\<not> 0 \<le> k" "nat (- k) = Suc m" by (simp_all add: k_def)
    then have "pow2 k = 1 / 2 ^ Suc m" by (simp add: pow2_def)
    then show ?thesis by (simp add: m power_add)
  qed
  have up: "a < pow2 (k + 1)"
  proof -
    have "of_int p < (2 * pow2 k) * (2 :: rat) ^ d"
      using cr(2) k2 by (simp add: mult.assoc)
    also have "\<dots> \<le> (2 * pow2 k) * of_int q"
      using dr(1) pow2_pos [of k] by (simp add: mult_left_mono)
    finally have "a < 2 * pow2 k"
      using qr by (simp add: a pos_divide_less_eq)
    then show ?thesis by (simp add: pow2_Suc)
  qed
  have lo: "pow2 (k - 1) \<le> a"
  proof -
    have h: "pow2 k = 2 * pow2 (k - 1)" using pow2_Suc [of "k - 1"] by simp
    have "pow2 (k - 1) * of_int q \<le> pow2 (k - 1) * 2 ^ Suc d"
      using dr(2) pow2_pos [of "k - 1"] by (simp add: mult_left_mono)
    also have "\<dots> = pow2 k * 2 ^ d" by (simp add: h)
    also have "\<dots> \<le> of_int p" using cr(1) k2 by simp
    finally show ?thesis
      using qr by (simp add: a pos_le_divide_eq)
  qed
  have fl: "floorLog2 a = (if pow2 k \<le> a then k else k - 1)"
    by (simp add: floorLog2_def pq c(1) d(1) k_def Let_def)
  show ?thesis
  proof (cases "pow2 k \<le> a")
    case True
    then show ?thesis using up fl by simp
  next
    case False
    then show ?thesis using lo fl by simp
  qed
qed

text \<open>
  The rounding is to a nearest point of the grid of doubles: the significand is an integer
  within one half of the scaled value, so a finite result is within half a unit \<open>2^e\<close> of
  the exact one.
\<close>

lemma roundHalfEven_nearest: "\<bar>of_int (roundHalfEven q) - q\<bar> \<le> 1 / 2"
proof -
  define d where "d = q - of_int \<lfloor>q\<rfloor>"
  have d: "0 \<le> d" "d < 1"
    unfolding d_def by linarith+
  have q: "q = of_int \<lfloor>q\<rfloor> + d"
    by (simp add: d_def)
  consider "d < 1 / 2" | "1 / 2 < d" | "d = 1 / 2"
    by linarith
  then show ?thesis
  proof cases
    case 1
    then have "roundHalfEven q = \<lfloor>q\<rfloor>"
      by (simp add: roundHalfEven_def Let_def d_def)
    then have "of_int (roundHalfEven q) - q = - d"
      by (simp add: d_def)
    then show ?thesis using 1 d by simp
  next
    case 2
    then have "roundHalfEven q = \<lfloor>q\<rfloor> + 1"
      by (simp add: roundHalfEven_def Let_def d_def)
    then have "of_int (roundHalfEven q) - q = 1 - d"
      by (simp add: d_def)
    then show ?thesis using 2 d by simp
  next
    case 3
    then have "roundHalfEven q = \<lfloor>q\<rfloor> \<or> roundHalfEven q = \<lfloor>q\<rfloor> + 1"
      by (simp add: roundHalfEven_def Let_def d_def)
    then have "of_int (roundHalfEven q) - q = - d \<or> of_int (roundHalfEven q) - q = 1 - d"
      by (auto simp: d_def)
    then show ?thesis using 3 by auto
  qed
qed

lemma roundDouble_nearest:
  assumes "roundDouble r = Fin v"
  shows "\<bar>v - r\<bar> \<le> pow2 (max (floorLog2 \<bar>r\<bar> - 52) (- 1074)) / 2"
proof (cases "r = 0")
  case True
  with assms show ?thesis
    using pow2_pos [of "max (floorLog2 \<bar>r\<bar> - 52) (- 1074)"] by (simp add: roundDouble_def)
next
  case False
  define e where "e = max (floorLog2 \<bar>r\<bar> - 52) (- 1074)"
  define m where "m = roundHalfEven (\<bar>r\<bar> / pow2 e)"
  have pe: "0 < pow2 e" by (rule pow2_pos)
  have v: "v = (if 0 < r then of_int m else - of_int m) * pow2 e"
    using assms False by (simp add: roundDouble_def Let_def e_def m_def split: if_splits)
  have "\<bar>of_int m - \<bar>r\<bar> / pow2 e\<bar> \<le> 1 / 2"
    unfolding m_def by (rule roundHalfEven_nearest)
  then have "\<bar>of_int m - \<bar>r\<bar> / pow2 e\<bar> * pow2 e \<le> 1 / 2 * pow2 e"
    using pe by (simp add: mult_right_mono)
  moreover have "\<bar>of_int m - \<bar>r\<bar> / pow2 e\<bar> * pow2 e = \<bar>of_int m * pow2 e - \<bar>r\<bar>\<bar>"
  proof -
    have "\<bar>of_int m - \<bar>r\<bar> / pow2 e\<bar> * pow2 e = \<bar>(of_int m - \<bar>r\<bar> / pow2 e) * pow2 e\<bar>"
      using pe by (simp add: abs_mult)
    also have "(of_int m - \<bar>r\<bar> / pow2 e) * pow2 e = of_int m * pow2 e - \<bar>r\<bar>"
      using pe by (simp add: left_diff_distrib)
    finally show ?thesis .
  qed
  ultimately have h: "\<bar>of_int m * pow2 e - \<bar>r\<bar>\<bar> \<le> pow2 e / 2"
    by simp
  show ?thesis
  proof (cases "0 < r")
    case True
    with h v show ?thesis by (simp add: e_def)
  next
    case neg: False
    with False have "r < 0" by simp
    with h have "\<bar>- (of_int m * pow2 e) - r\<bar> \<le> pow2 e / 2"
      by (simp add: abs_if split: if_splits)
    with neg v show ?thesis by (simp add: e_def)
  qed
qed

text \<open>
  With a NaN \<open>y\<close> between two finite ones the comparator is not consistent (the middle
  item equals both others, which differ), and the model gives no order.
\<close>

lemma sort_order_implementation_defined:
  "sortItems [\<lparr> str = lit ''A'', y = Fin 1, x = Fin 0, height = Fin 10 \<rparr>,
              \<lparr> str = lit ''B'', y = NaN, x = Fin 0, height = Fin 10 \<rparr>,
              \<lparr> str = lit ''C'', y = Fin 2, x = Fin 0, height = Fin 10 \<rparr>] = None"
  by code_simp

text \<open>
  The rounding at work: \<open>5.7 * 1.5\<close> is the double \<open>8.55\<close>, \<open>12.3 - (-2.7)\<close> is exactly
  15 by the tie to the even significand, and \<open>2^53 + 1\<close> is not a double.
\<close>

lemma rounding_examples:
  "jscale (num (57 / 10)) (3 / 2) = num (171 / 20)"
  "jsub (num (123 / 10)) (num (- 27 / 10)) = Fin 15"
  "num (1 / 10) = Fin (3602879701896397 / 36028797018963968)"
  "roundDouble 9007199254740993 = Fin 9007199254740992"
  by code_simp+

text \<open>
  The overflow: the height \<open>3 * 2^1022\<close> (about \<open>1.35e308\<close>) is a double, and its
  threshold \<open>height * 1.5\<close> is infinite.
\<close>

lemma threshold_overflow: "jscale (Fin (3 * 2 ^ 1022)) (3 / 2) = PosInf"
  by (simp add: roundDouble_def floorLog2_def pow2_def roundHalfEven_def Let_def bitLength.simps)

text \<open>
  Claim C10. The "unset" marker of \<open>lastY\<close> is the number \<open>-1\<close>. When the first item of
  the walk has \<open>y = -1\<close>, the second item takes the first-item branch again: its text is
  appended to the buffer with no space and no gap comparison, whatever its \<open>y\<close> and height,
  and nothing is flushed.
\<close>

theorem sentinel_collision:
  assumes "y a = Fin (- 1)"
  shows "lastY initWalk = Fin (- 1) \<and>
         walkItems (a # b # rest) =
           foldl step \<lparr> pageHtml = [], lastY = y b, currentParagraph = str a @ str b \<rparr> rest"
  using assms by (simp add: walkItems_def initWalk_def step_def jseq_def)

theorem sentinel_collision_witness:
  "y \<lparr> str = lit ''A'', y = Fin (- 1), x = Fin 0, height = Fin 10 \<rparr> = Fin (- 1) \<and>
   walkItems [\<lparr> str = lit ''A'', y = Fin (- 1), x = Fin 0, height = Fin 10 \<rparr>,
              \<lparr> str = lit ''B'', y = Fin (- 100), x = Fin 0, height = Fin 10 \<rparr>]
     = \<lparr> pageHtml = [], lastY = Fin (- 100), currentParagraph = lit ''AB'' \<rparr>"
  using sentinel_collision [of "\<lparr> str = lit ''A'', y = Fin (- 1), x = Fin 0, height = Fin 10 \<rparr>"
      "\<lparr> str = lit ''B'', y = Fin (- 100), x = Fin 0, height = Fin 10 \<rparr>" "[]"]
  by (simp add: lit_def)

text \<open>
  Claim C8. In the same-paragraph branch the buffer becomes the old buffer, then one space
  exactly when the buffer does not end with a space and the item's text does not start with
  one, then the item's text. So \<open>hello\<close> and \<open>world\<close> give \<open>hello world\<close>, and
  \<open>hello \<close> (with a trailing space) and \<open>world\<close> give \<open>hello world\<close> as well.
\<close>

theorem word_spacing:
  assumes "continues w it"
  shows "currentParagraph (step w it) =
           currentParagraph w @
           (if \<not> endsWith (currentParagraph w) (lit '' '') \<and> \<not> startsWith (str it) (lit '' '')
            then lit '' '' else []) @ str it
         \<and> (currentParagraph w = lit ''hello'' \<and> str it = lit ''world''
              \<longrightarrow> currentParagraph (step w it) = lit ''hello world'')
         \<and> (currentParagraph w = lit ''hello '' \<and> str it = lit ''world''
              \<longrightarrow> currentParagraph (step w it) = lit ''hello world'')"
proof -
  have merged: "currentParagraph (step w it) = joined (currentParagraph w) (str it)"
    using assms by (simp add: step_merge)
  have ex1: "joined (lit ''hello'') (lit ''world'') = lit ''hello world''"
    by code_simp
  have ex2: "joined (lit ''hello '') (lit ''world'') = lit ''hello world''"
    by code_simp
  show ?thesis
    using merged ex1 ex2 by (auto simp: joined_def)
qed

theorem word_spacing_witness:
  "continues \<lparr> pageHtml = [], lastY = Fin 700, currentParagraph = lit ''hello'' \<rparr>
             \<lparr> str = lit ''world'', y = Fin 699, x = Fin 0, height = Fin 12 \<rparr>
   \<and> currentParagraph (step \<lparr> pageHtml = [], lastY = Fin 700, currentParagraph = lit ''hello'' \<rparr>
             \<lparr> str = lit ''world'', y = Fin 699, x = Fin 0, height = Fin 12 \<rparr>) = lit ''hello world''"
proof -
  have c: "continues \<lparr> pageHtml = [], lastY = Fin 700, currentParagraph = lit ''hello'' \<rparr>
             \<lparr> str = lit ''world'', y = Fin 699, x = Fin 0, height = Fin 12 \<rparr>"
    by code_simp
  show ?thesis
    using c word_spacing [OF c, THEN conjunct2, THEN conjunct1] by simp
qed

text \<open>
  Claim C1, as stated, fails: an item whose \<open>y\<close> is NaN is no paragraph break. The
  comparison \<open>diffY > height * 1.5\<close> is false for NaN, so the item continues the open
  paragraph. On the page below the output is one paragraph.
\<close>

theorem nonfinite_y_counterexample:
  "\<not> isFinite (y \<lparr> str = lit ''World'', y = NaN, x = Fin 0, height = Fin 12 \<rparr>)
   \<and> \<not> forcedBreak (walkItems [\<lparr> str = lit ''Hello'', y = Fin 700, x = Fin 0, height = Fin 12 \<rparr>])
         \<lparr> str = lit ''World'', y = NaN, x = Fin 0, height = Fin 12 \<rparr>
   \<and> reconstructPage
        [\<lparr> item_str = lit ''Hello'', transform = [Fin 1, Fin 0, Fin 0, Fin 1, Fin 0, Fin 700],
            item_height = Some (Fin 12) \<rparr>,
         \<lparr> item_str = lit ''World'', transform = [Fin 1, Fin 0, Fin 0, Fin 1, Fin 0, NaN],
            item_height = Some (Fin 12) \<rparr>]
       = Some (lit ''<p>Hello World</p>'')"
proof -
  have a: "\<not> forcedBreak (walkItems [\<lparr> str = lit ''Hello'', y = Fin 700, x = Fin 0, height = Fin 12 \<rparr>])
         \<lparr> str = lit ''World'', y = NaN, x = Fin 0, height = Fin 12 \<rparr>"
    by code_simp
  have b: "reconstructPage
        [\<lparr> item_str = lit ''Hello'', transform = [Fin 1, Fin 0, Fin 0, Fin 1, Fin 0, Fin 700],
            item_height = Some (Fin 12) \<rparr>,
         \<lparr> item_str = lit ''World'', transform = [Fin 1, Fin 0, Fin 0, Fin 1, Fin 0, NaN],
            item_height = Some (Fin 12) \<rparr>]
       = Some (lit ''<p>Hello World</p>'')"
    by code_simp
  show ?thesis using a b by (simp add: isFinite_def)
qed

text \<open>
  Claim C1, amended. The step is a total function of the walk and the item: no coordinate
  makes it fail. For a step whose previous \<open>y\<close> is not the marker \<open>-1\<close>: an item with NaN
  \<open>y\<close> is appended to the open buffer by the same-paragraph branch and nothing is flushed;
  an item with infinite \<open>y\<close> after a finite \<open>y\<close> is a paragraph break when its threshold
  \<open>height * 1.5\<close> is finite, and continues the paragraph when the threshold is
  \<open>+Infinity\<close> (an infinite height, or a finite one whose product overflows).
\<close>

theorem nonfinite_y_handling:
  assumes "\<not> jseq (lastY w) (Fin (- 1))"
  shows "(y it = NaN \<longrightarrow>
            pageHtml (step w it) = pageHtml w \<and>
            currentParagraph (step w it) =
              currentParagraph w @
              (if \<not> endsWith (currentParagraph w) (lit '' '') \<and> \<not> startsWith (str it) (lit '' '')
               then lit '' '' else []) @ str it)
       \<and> ((y it = PosInf \<or> y it = NegInf) \<and> isFinite (lastY w)
              \<and> isFinite (jscale (height it) (3 / 2)) \<longrightarrow>
            forcedBreak w it)
       \<and> ((y it = PosInf \<or> y it = NegInf) \<and> isFinite (lastY w)
              \<and> jscale (height it) (3 / 2) = PosInf \<longrightarrow>
            continues w it)"
proof (intro conjI impI)
  assume n: "y it = NaN"
  then have "continues w it"
    using assms by (simp add: continues_def diffY_NaN)
  then have s: "step w it = w\<lparr> currentParagraph := joined (currentParagraph w) (str it), lastY := y it \<rparr>"
    by (rule step_merge)
  show "pageHtml (step w it) = pageHtml w"
    by (simp add: s)
  show "currentParagraph (step w it) =
              currentParagraph w @
              (if \<not> endsWith (currentParagraph w) (lit '' '') \<and> \<not> startsWith (str it) (lit '' '')
               then lit '' '' else []) @ str it"
    by (simp add: s joined_def)
next
  assume h: "(y it = PosInf \<or> y it = NegInf) \<and> isFinite (lastY w)
      \<and> isFinite (jscale (height it) (3 / 2))"
  then have d: "diffY w it = PosInf"
    by (simp add: diffY_infinite)
  from h obtain r where "jscale (height it) (3 / 2) = Fin r"
    by (cases "jscale (height it) (3 / 2)") (simp_all add: isFinite_def)
  then have "jgt (diffY w it) (jscale (height it) (3 / 2))"
    by (simp add: d)
  with assms have "step w it = w\<lparr> pageHtml := flush (pageHtml w) (currentParagraph w),
                   currentParagraph := str it, lastY := y it \<rparr>"
    by (simp add: step_split)
  then show "forcedBreak w it"
    by (simp add: forcedBreak_def)
next
  assume h: "(y it = PosInf \<or> y it = NegInf) \<and> isFinite (lastY w)
      \<and> jscale (height it) (3 / 2) = PosInf"
  then have d: "diffY w it = PosInf"
    by (simp add: diffY_infinite)
  show "continues w it"
    using assms h by (simp add: continues_def d)
qed

theorem nonfinite_y_handling_witness:
  "\<not> jseq (lastY \<lparr> pageHtml = [], lastY = Fin 700, currentParagraph = lit ''Hello'' \<rparr>) (Fin (- 1))
   \<and> currentParagraph (step \<lparr> pageHtml = [], lastY = Fin 700, currentParagraph = lit ''Hello'' \<rparr>
        \<lparr> str = lit ''World'', y = NaN, x = Fin 0, height = Fin 12 \<rparr>) = lit ''Hello World''
   \<and> isFinite (Fin 700) \<and> isFinite (jscale (Fin 12) (3 / 2))
   \<and> forcedBreak \<lparr> pageHtml = [], lastY = Fin 700, currentParagraph = lit ''Hello'' \<rparr>
        \<lparr> str = lit ''World'', y = PosInf, x = Fin 0, height = Fin 12 \<rparr>
   \<and> jscale (Fin (3 * 2 ^ 1022)) (3 / 2) = PosInf
   \<and> continues \<lparr> pageHtml = [], lastY = Fin 700, currentParagraph = lit ''Hello'' \<rparr>
        \<lparr> str = lit ''World'', y = PosInf, x = Fin 0, height = Fin (3 * 2 ^ 1022) \<rparr>"
proof -
  have p: "\<not> jseq (lastY \<lparr> pageHtml = [], lastY = Fin 700, currentParagraph = lit ''Hello'' \<rparr>) (Fin (- 1))"
    by (simp add: jseq_def)
  have t: "jscale (Fin 12) (3 / 2) = Fin 18"
    by code_simp
  have f: "isFinite (Fin 700) \<and> isFinite (jscale (Fin 12) (3 / 2))"
    unfolding t by (simp add: isFinite_def)
  have j: "lit ''Hello'' @ (if \<not> endsWith (lit ''Hello'') (lit '' '') \<and> \<not> startsWith (lit ''World'') (lit '' '')
               then lit '' '' else []) @ lit ''World'' = lit ''Hello World''"
    by code_simp
  have n: "currentParagraph (step \<lparr> pageHtml = [], lastY = Fin 700, currentParagraph = lit ''Hello'' \<rparr>
        \<lparr> str = lit ''World'', y = NaN, x = Fin 0, height = Fin 12 \<rparr>) = lit ''Hello World''"
    using nonfinite_y_handling [OF p, of "\<lparr> str = lit ''World'', y = NaN, x = Fin 0, height = Fin 12 \<rparr>",
        THEN conjunct1] j by simp
  have i: "forcedBreak \<lparr> pageHtml = [], lastY = Fin 700, currentParagraph = lit ''Hello'' \<rparr>
        \<lparr> str = lit ''World'', y = PosInf, x = Fin 0, height = Fin 12 \<rparr>"
    using nonfinite_y_handling [OF p, of "\<lparr> str = lit ''World'', y = PosInf, x = Fin 0, height = Fin 12 \<rparr>",
        THEN conjunct2, THEN conjunct1] f by simp
  have o: "jscale (Fin (3 * 2 ^ 1022)) (3 / 2) = PosInf"
    by (rule threshold_overflow)
  have c: "continues \<lparr> pageHtml = [], lastY = Fin 700, currentParagraph = lit ''Hello'' \<rparr>
        \<lparr> str = lit ''World'', y = PosInf, x = Fin 0, height = Fin (3 * 2 ^ 1022) \<rparr>"
    using nonfinite_y_handling [OF p,
        of "\<lparr> str = lit ''World'', y = PosInf, x = Fin 0, height = Fin (3 * 2 ^ 1022) \<rparr>",
        THEN conjunct2, THEN conjunct2] o
    by (simp add: isFinite_def)
  show ?thesis using p f n i o c by blast
qed

text \<open>
  Claim C2, as stated, fails: \<open>item.height || 10\<close> replaces falsy heights only, and a
  negative height is truthy. A reported height of \<open>-5\<close> is used as \<open>-5\<close>.
\<close>

theorem height_negative_counterexample:
  "height (mapItem \<lparr> item_str = lit ''a'', transform = [Fin 1, Fin 0, Fin 0, Fin 1, Fin 0, Fin 700],
       item_height = Some (Fin (- 5)) \<rparr>) = Fin (- 5)
   \<and> height (mapItem \<lparr> item_str = lit ''a'', transform = [Fin 1, Fin 0, Fin 0, Fin 1, Fin 0, Fin 700],
       item_height = Some (Fin (- 5)) \<rparr>) \<noteq> Fin 10"
  by (simp add: mapItem_def heightOr10_def jor_def truthy_def)

text \<open>
  Claim C2, amended. The height used by the gap comparison is the reported height when that
  is a non-zero number (positive, negative or infinite), and 10 when the height is missing,
  zero or NaN.
\<close>

theorem height_default:
  "(item_height it = Some (Fin r) \<and> r \<noteq> 0 \<longrightarrow> height (mapItem it) = Fin r)
   \<and> (item_height it = Some PosInf \<longrightarrow> height (mapItem it) = PosInf)
   \<and> (item_height it = Some NegInf \<longrightarrow> height (mapItem it) = NegInf)
   \<and> (item_height it = None \<or> item_height it = Some (Fin 0) \<or> item_height it = Some NaN
        \<longrightarrow> height (mapItem it) = Fin 10)"
  by (auto simp: mapItem_def heightOr10_def jor_def truthy_def)

theorem height_default_witness:
  "height (mapItem \<lparr> item_str = lit ''a'', transform = [Fin 1, Fin 0, Fin 0, Fin 1, Fin 0, Fin 700],
       item_height = Some (Fin 12) \<rparr>) = Fin 12
   \<and> height (mapItem \<lparr> item_str = lit ''a'', transform = [Fin 1, Fin 0, Fin 0, Fin 1, Fin 0, Fin 700],
       item_height = None \<rparr>) = Fin 10
   \<and> height (mapItem \<lparr> item_str = lit ''a'', transform = [Fin 1, Fin 0, Fin 0, Fin 1, Fin 0, Fin 700],
       item_height = Some (Fin 0) \<rparr>) = Fin 10"
  using height_default [of "\<lparr> item_str = lit ''a'', transform = [Fin 1, Fin 0, Fin 0, Fin 1, Fin 0, Fin 700],
       item_height = Some (Fin 12) \<rparr>" 12]
    height_default [of "\<lparr> item_str = lit ''a'', transform = [Fin 1, Fin 0, Fin 0, Fin 1, Fin 0, Fin 700],
       item_height = None \<rparr>" 0]
    height_default [of "\<lparr> item_str = lit ''a'', transform = [Fin 1, Fin 0, Fin 0, Fin 1, Fin 0, Fin 700],
       item_height = Some (Fin 0) \<rparr>" 0]
  by simp

text \<open>
  The gap threshold, for a step whose previous \<open>y\<close> is not the marker \<open>-1\<close>: a gap equal
  to the threshold continues the paragraph, a gap above it breaks the paragraph.
\<close>

lemma gap_threshold_when_set:
  assumes "\<not> jseq (lastY w) (Fin (- 1))"
  shows "(jseq (diffY w it) (jscale (height it) (3 / 2)) \<longrightarrow> continues w it)
       \<and> (jgt (diffY w it) (jscale (height it) (3 / 2)) \<longrightarrow> forcedBreak w it)"
  using assms by (auto simp: continues_def jseq_def jgt_irrefl step_split forcedBreak_def)

text \<open>
  Claim C3 on the page of two items with \<open>y = -1\<close> and \<open>y = -100\<close>, both of height 10:
  the gap 99 is above the threshold 15, and yet the second item is not a paragraph break.
  The walk reads the first item's \<open>y = -1\<close> as "no item yet" and the page is the single
  paragraph \<open>AB\<close>.
\<close>

theorem gap_threshold_sentinel_failure:
  "jgt (diffY (walkItems [\<lparr> str = lit ''A'', y = Fin (- 1), x = Fin 0, height = Fin 10 \<rparr>])
          \<lparr> str = lit ''B'', y = Fin (- 100), x = Fin 0, height = Fin 10 \<rparr>)
       (jscale (height \<lparr> str = lit ''B'', y = Fin (- 100), x = Fin 0, height = Fin 10 \<rparr>) (3 / 2))
   \<and> \<not> forcedBreak (walkItems [\<lparr> str = lit ''A'', y = Fin (- 1), x = Fin 0, height = Fin 10 \<rparr>])
          \<lparr> str = lit ''B'', y = Fin (- 100), x = Fin 0, height = Fin 10 \<rparr>
   \<and> reconstructPage
        [\<lparr> item_str = lit ''A'', transform = [Fin 1, Fin 0, Fin 0, Fin 1, Fin 0, Fin (- 1)],
            item_height = Some (Fin 10) \<rparr>,
         \<lparr> item_str = lit ''B'', transform = [Fin 1, Fin 0, Fin 0, Fin 1, Fin 0, Fin (- 100)],
            item_height = Some (Fin 10) \<rparr>]
       = Some (lit ''<p>AB</p>'')"
  by code_simp

text \<open>
  Claim C9. The page of the three items \<open>Hello\<close> (y 700), \<open>World\<close> (y 699) and
  \<open>New para\<close> (y 650), each of height 12, yields \<open><p>Hello World</p><p>New para</p>\<close>,
  whatever the other entries of the transforms are, and in the reverse input order too.
\<close>

theorem scenario_three_fragments:
  "reconstructPage
     [\<lparr> item_str = lit ''Hello'', transform = [a1, b1, c1, d1, e1, Fin 700], item_height = Some (Fin 12) \<rparr>,
      \<lparr> item_str = lit ''World'', transform = [a2, b2, c2, d2, e2, Fin 699], item_height = Some (Fin 12) \<rparr>,
      \<lparr> item_str = lit ''New para'', transform = [a3, b3, c3, d3, e3, Fin 650], item_height = Some (Fin 12) \<rparr>]
     = Some (lit ''<p>Hello World</p><p>New para</p>'')
   \<and> reconstructPage
     [\<lparr> item_str = lit ''New para'', transform = [a3, b3, c3, d3, e3, Fin 650], item_height = Some (Fin 12) \<rparr>,
      \<lparr> item_str = lit ''World'', transform = [a2, b2, c2, d2, e2, Fin 699], item_height = Some (Fin 12) \<rparr>,
      \<lparr> item_str = lit ''Hello'', transform = [a1, b1, c1, d1, e1, Fin 700], item_height = Some (Fin 12) \<rparr>]
     = Some (lit ''<p>Hello World</p><p>New para</p>'')"
proof -
  define i1 where "i1 = \<lparr> str = lit ''Hello'', y = Fin 700, x = e1, height = Fin 12 \<rparr>"
  define i2 where "i2 = \<lparr> str = lit ''World'', y = Fin 699, x = e2, height = Fin 12 \<rparr>"
  define i3 where "i3 = \<lparr> str = lit ''New para'', y = Fin 650, x = e3, height = Fin 12 \<rparr>"
  have m1: "mapItem \<lparr> item_str = lit ''Hello'', transform = [a1, b1, c1, d1, e1, Fin 700],
      item_height = Some (Fin 12) \<rparr> = i1"
    by (simp add: mapItem_def at_index_def heightOr10_def jor_def truthy_def i1_def)
  have m2: "mapItem \<lparr> item_str = lit ''World'', transform = [a2, b2, c2, d2, e2, Fin 699],
      item_height = Some (Fin 12) \<rparr> = i2"
    by (simp add: mapItem_def at_index_def heightOr10_def jor_def truthy_def i2_def)
  have m3: "mapItem \<lparr> item_str = lit ''New para'', transform = [a3, b3, c3, d3, e3, Fin 650],
      item_height = Some (Fin 12) \<rparr> = i3"
    by (simp add: mapItem_def at_index_def heightOr10_def jor_def truthy_def i3_def)
  have d: "jsub (Fin 699) (Fin 700) = Fin (- 1)" "jsub (Fin 700) (Fin 699) = Fin 1"
      "jsub (Fin 650) (Fin 700) = Fin (- 50)" "jsub (Fin 700) (Fin 650) = Fin 50"
      "jsub (Fin 650) (Fin 699) = Fin (- 49)" "jsub (Fin 699) (Fin 650) = Fin 49"
    by code_simp+
  have c: "sortCompare i1 i2 = - 1" "sortCompare i2 i1 = 1"
      "sortCompare i1 i3 = - 1" "sortCompare i3 i1 = 1"
      "sortCompare i2 i3 = - 1" "sortCompare i3 i2 = 1"
    using d by (simp_all add: sortCompare_y i1_def i2_def i3_def)
  have s: "sortItems [i1, i2, i3] = Some [i1, i2, i3]" "sortItems [i3, i2, i1] = Some [i1, i2, i3]"
    by (simp_all add: sortItems_def consistentComparator_def consistentTriple_def sortCompare_refl c)
  have w: "flush (pageHtml (walkItems [i1, i2, i3])) (currentParagraph (walkItems [i1, i2, i3]))
      = lit ''<p>Hello World</p><p>New para</p>''"
    unfolding i1_def i2_def i3_def by code_simp
  show ?thesis
    by (simp add: reconstructPage_def m1 m2 m3 s w Let_def)
qed

theorem scenario_three_fragments_witness:
  "reconstructPage
     [\<lparr> item_str = lit ''Hello'', transform = [Fin 1, Fin 0, Fin 0, Fin 1, Fin 72, Fin 700],
         item_height = Some (Fin 12) \<rparr>,
      \<lparr> item_str = lit ''World'', transform = [Fin 1, Fin 0, Fin 0, Fin 1, Fin 110, Fin 699],
         item_height = Some (Fin 12) \<rparr>,
      \<lparr> item_str = lit ''New para'', transform = [Fin 1, Fin 0, Fin 0, Fin 1, Fin 72, Fin 650],
         item_height = Some (Fin 12) \<rparr>]
     = Some (lit ''<p>Hello World</p><p>New para</p>'')"
  using scenario_three_fragments [of "Fin 1" "Fin 0" "Fin 0" "Fin 1" "Fin 72"
      "Fin 1" "Fin 0" "Fin 0" "Fin 1" "Fin 110" "Fin 1" "Fin 0" "Fin 0" "Fin 1" "Fin 72"]
  by simp

section \<open>Theorems: the MOBI encoder\<close>

lemma thenDo_Inr [simp]: "thenDo (Inr v) f = f v"
  by (simp add: thenDo_def)

lemma thenDo_Inl [simp]: "thenDo (Inl e) f = Inl e"
  by (simp add: thenDo_def)

lemma foldl_thenDo_Inl: "foldl thenDo (Inl e) ws = Inl e"
  by (induction ws) simp_all

lemma foldl_thenDo: "foldl thenDo r ws = thenDo r (\<lambda>b. foldl thenDo (Inr b) ws)"
proof (induction ws arbitrary: r)
  case Nil
  show ?case by (cases r) simp_all
next
  case (Cons w ws)
  show ?case
  proof (cases r)
    case (Inl e)
    then show ?thesis by (simp add: foldl_thenDo_Inl)
  next
    case (Inr b)
    then show ?thesis by simp
  qed
qed

lemma runWrites_Nil: "runWrites [] buf = Inr buf"
  by (simp add: runWrites_def)

lemma runWrites_Cons: "runWrites (w # ws) buf = thenDo (w buf) (runWrites ws)"
proof -
  have "runWrites (w # ws) buf = foldl thenDo (w buf) ws"
    by (simp add: runWrites_def)
  also have "\<dots> = thenDo (w buf) (\<lambda>b. foldl thenDo (Inr b) ws)"
    by (rule foldl_thenDo)
  finally show ?thesis
    by (simp add: runWrites_def [abs_def])
qed

lemma thenDo_return [simp]: "thenDo r Inr = r"
  by (cases r) simp_all

lemma runWrites_single: "runWrites [w] buf = w buf"
  by (simp add: runWrites_Cons runWrites_Nil [abs_def])

lemma runWrites_append: "runWrites (ws @ vs) buf = thenDo (runWrites ws buf) (runWrites vs)"
proof (induction ws arbitrary: buf)
  case Nil
  show ?case by (simp add: runWrites_Nil)
next
  case (Cons w ws)
  show ?case
    by (cases "w buf") (simp_all add: runWrites_Cons Cons.IH)
qed

lemma length_blit [simp]: "length (blit off bs buf) = length buf"
  by (induction off bs buf rule: blit.induct) simp_all

lemma nth_blit_outside: "j < off \<or> off + length bs \<le> j \<Longrightarrow> blit off bs buf ! j = buf ! j"
  by (induction off bs buf rule: blit.induct) auto

lemma blit_snoc: "blit off (bs @ [b]) buf = (blit off bs buf)[off + length bs := b]"
  by (induction off bs buf rule: blit.induct) simp_all

lemma length_padTo [simp]: "length (padTo len bs) = len"
  by (simp add: padTo_def)

lemma padTo_Suc: "padTo (Suc len) bs = padTo len bs @ [if len < length bs then bs ! len else 0]"
  by (simp add: padTo_def)

lemma setUint8_Inr: "off < length buf \<Longrightarrow> setUint8 off v buf = Inr (buf[off := of_nat v])"
  by (simp add: setUint8_def)

lemma setUint16_Inr:
  "off + 2 \<le> length buf \<Longrightarrow>
   setUint16 off v buf = Inr (buf[off := of_nat (v div 0x100), off + 1 := of_nat v])"
  by (simp add: setUint16_def)

lemma setUint32_Inr:
  "off + 4 \<le> length buf \<Longrightarrow>
   setUint32 off v buf = Inr (buf[off := of_nat (v div 0x1000000), off + 1 := of_nat (v div 0x10000),
                    off + 2 := of_nat (v div 0x100), off + 3 := of_nat v])"
  by (simp add: setUint32_def)

lemma writeString_Inr:
  "off + len \<le> length buf \<Longrightarrow>
   writeString off s len buf = Inr (blit off (padTo len (stringToUint8Array s)) buf)"
proof (induction len)
  case 0
  show ?case by (simp add: writeString_def runWrites_Nil padTo_def)
next
  case (Suc len)
  then have ih: "writeString off s len buf = Inr (blit off (padTo len (stringToUint8Array s)) buf)"
    by simp
  have lt: "off + len < length buf" using Suc.prems by simp
  have "writeString off s (Suc len) buf =
        thenDo (writeString off s len buf)
          (setUint8 (off + len) (if len < length (stringToUint8Array s)
                                 then unat (stringToUint8Array s ! len) else 0))"
    by (simp add: writeString_def Let_def runWrites_append runWrites_single [abs_def])
  also have "\<dots> = Inr ((blit off (padTo len (stringToUint8Array s)) buf)
                 [off + len := (if len < length (stringToUint8Array s) then stringToUint8Array s ! len else 0)])"
    using lt by (simp add: ih setUint8_Inr)
  finally show ?case
    by (simp add: padTo_Suc blit_snoc)
qed

lemma bytes_MOBI: "stringToUint8Array (lit ''MOBI'') = [0x4D, 0x4F, 0x42, 0x49]"
  by code_simp
lemma bytes_BOOK: "stringToUint8Array (lit ''BOOK'') = [0x42, 0x4F, 0x4F, 0x4B]"
  by code_simp

lemma padTo_4: "padTo 4 [a, b, c, d] = [a, b, c, d]"
  by (simp add: padTo_def upt_rec)

lemmas mobi_consts = NAME_LEN_def PDB_HEADER_LEN_def RECORD_INFO_LEN_def PALMDOC_HEADER_LEN_def
  MOBI_HEADER_LEN_def EXTH_HEADER_LEN_def RECORD_0_LEN_def numRecords_def

text \<open>
  The buffer is the 342-byte header followed by the text, and these are the header's fields.
\<close>

lemma createMobiBlob_layout:
  fixes dateNow htmlContent titleArg
  defines "content \<equiv> stringToUint8Array (fullContent (titleOrDefault titleArg) htmlContent)"
  shows "\<exists>hdr. createMobiBlob dateNow htmlContent titleArg
            = Inr \<lparr> blobBytes = hdr @ content, blobType = lit ''application/x-mobipocket-ebook'' \<rparr>
          \<and> length hdr = 342
          \<and> getUint16 hdr 76 = Some 2
          \<and> getUint32 hdr 78 = Some 94
          \<and> getUint32 hdr 86 = Some 342
          \<and> getUint16 hdr 94 = Some 1
          \<and> getUint16 hdr 102 = Some 1
          \<and> getUint16 hdr 104 = Some 4096
          \<and> map ((!) hdr) [110, 111, 112, 113] = stringToUint8Array (lit ''MOBI'')
          \<and> getUint32 hdr 114 = Some 232"
  unfolding content_def
  by (simp add: createMobiBlob_def Let_def mobi_consts runWrites_Cons runWrites_Nil
     setUint16_Inr setUint32_Inr writeString_Inr setBytes_def bytes_MOBI bytes_BOOK padTo_4
     getUint32_def getUint16_def nth_blit_outside)

text \<open>
  Claim C4. For every HTML string, title and clock value the encoder returns a buffer of
  342 bytes plus the text. The record-info entry at offset 78 holds 94, which is
  \<open>PDB_HEADER_LEN + numRecords * RECORD_INFO_LEN\<close>, and Record 0 is there: the PalmDOC
  header (compression 1) at 94 and the MOBI identifier at 110. The entry at offset 86 holds
  342, which is 94 plus the two header lengths, and Record 1 is there: the bytes from 342
  on are the UTF-8 text.
\<close>

theorem mobi_record_offsets:
  "\<exists>buf. createMobiBlob dateNow htmlContent titleArg
            = Inr \<lparr> blobBytes = buf, blobType = lit ''application/x-mobipocket-ebook'' \<rparr>
     \<and> length buf = 342 + length (stringToUint8Array (fullContent (titleOrDefault titleArg) htmlContent))
     \<and> getUint32 buf 78 = Some (PDB_HEADER_LEN + numRecords * RECORD_INFO_LEN)
     \<and> PDB_HEADER_LEN + numRecords * RECORD_INFO_LEN = 94
     \<and> getUint32 buf 86 = Some (94 + PALMDOC_HEADER_LEN + MOBI_HEADER_LEN)
     \<and> 94 + PALMDOC_HEADER_LEN + MOBI_HEADER_LEN = 342
     \<and> getUint16 buf 94 = Some 1
     \<and> map ((!) buf) [110, 111, 112, 113] = stringToUint8Array (lit ''MOBI'')
     \<and> drop 342 buf = stringToUint8Array (fullContent (titleOrDefault titleArg) htmlContent)"
proof -
  obtain hdr where h: "createMobiBlob dateNow htmlContent titleArg
            = Inr \<lparr> blobBytes = hdr @ stringToUint8Array (fullContent (titleOrDefault titleArg) htmlContent),
                    blobType = lit ''application/x-mobipocket-ebook'' \<rparr>"
      "length hdr = 342" "getUint32 hdr 78 = Some 94" "getUint32 hdr 86 = Some 342"
      "getUint16 hdr 94 = Some 1"
      "map ((!) hdr) [110, 111, 112, 113] = stringToUint8Array (lit ''MOBI'')"
    using createMobiBlob_layout [of dateNow htmlContent titleArg] by blast
  have g32: "getUint32 (hdr @ t) k = getUint32 hdr k" if "k + 4 \<le> 342" for k t
    using that h(2) by (simp add: getUint32_def nth_append)
  have g16: "getUint16 (hdr @ t) k = getUint16 hdr k" if "k + 2 \<le> 342" for k t
    using that h(2) by (simp add: getUint16_def nth_append)
  have n: "(hdr @ t) ! k = hdr ! k" if "k < 342" for k t
    using that h(2) by (simp add: nth_append)
  show ?thesis
    using h by (intro exI [of _ "hdr @ stringToUint8Array (fullContent (titleOrDefault titleArg) htmlContent)"])
      (simp add: g32 g16 n mobi_consts)
qed

theorem mobi_record_offsets_witness:
  "(case createMobiBlob 1700000000000 (lit ''<p>x</p>'') (Some (lit ''T'')) of
      Inl e \<Rightarrow> False
    | Inr b \<Rightarrow> getUint32 (blobBytes b) 78 = Some 94 \<and> getUint32 (blobBytes b) 86 = Some 342)"
proof -
  obtain buf where b: "createMobiBlob 1700000000000 (lit ''<p>x</p>'') (Some (lit ''T''))
        = Inr \<lparr> blobBytes = buf, blobType = lit ''application/x-mobipocket-ebook'' \<rparr>"
      "getUint32 buf 78 = Some (PDB_HEADER_LEN + numRecords * RECORD_INFO_LEN)"
      "PDB_HEADER_LEN + numRecords * RECORD_INFO_LEN = 94"
      "getUint32 buf 86 = Some (94 + PALMDOC_HEADER_LEN + MOBI_HEADER_LEN)"
      "94 + PALMDOC_HEADER_LEN + MOBI_HEADER_LEN = 342"
    using mobi_record_offsets [of 1700000000000 "lit ''<p>x</p>''" "Some (lit ''T'')"] by blast
  show ?thesis
    using b by simp
qed

section \<open>Theorems: the EPUB packager\<close>

lemma lit_append: "lit a @ lit b = lit (a @ b)"
  by (simp add: lit_def)

lemma lit_char_inj: "(word_of_nat (of_char c) :: jschar) = word_of_nat (of_char d) \<longleftrightarrow> c = d"
proof
  assume e: "(word_of_nat (of_char c) :: jschar) = word_of_nat (of_char d)"
  have "unat (word_of_nat (of_char k) :: jschar) = of_char k" for k :: char
  proof -
    have "(of_char k :: nat) mod 256 < 256" by simp
    then have "(of_char k :: nat) < 256" by (simp only: of_char_mod_256)
    then have "(of_char k :: nat) < 65536" by (rule less_trans) simp
    then have "(of_char k :: nat) < 2 ^ LENGTH(16)" by simp
    then show ?thesis by (simp add: unat_of_nat)
  qed
  then have u: "unat (word_of_nat (of_char k) :: jschar) = of_char k" for k :: char .
  from e have "unat (word_of_nat (of_char c) :: jschar) = unat (word_of_nat (of_char d) :: jschar)"
    by (rule arg_cong)
  then have "(of_char c :: nat) = of_char d" by (simp only: u)
  then show "c = d" by simp
qed simp

lemma lit_eq_iff [simp]: "lit a = lit b \<longleftrightarrow> a = b"
proof (induction a arbitrary: b)
  case Nil
  show ?case by (auto simp: lit_def)
next
  case (Cons c a)
  show ?case
  proof (cases b)
    case Nil
    then show ?thesis by (simp add: lit_def)
  next
    case (Cons d b')
    then show ?thesis
      using Cons.IH [of b'] by (simp add: lit_def lit_char_inj)
  qed
qed

lemma length_lit [simp]: "length (lit s) = length s"
  by (simp add: lit_def)

lemma endsWith_append: "endsWith b p \<Longrightarrow> endsWith (a @ b) p"
  by (auto simp: endsWith_def)

lemma startsWith_append: "startsWith a p \<Longrightarrow> startsWith (a @ b) p"
proof -
  assume s: "startsWith a p"
  then have "length (take (length p) a) = length p"
    by (simp add: startsWith_def)
  then have "length p \<le> length a"
    by simp
  with s show ?thesis by (simp add: startsWith_def)
qed

lemma createEpubBlob_Inr:
  "createEpubBlob jszipLoaded randomUUID htmlContent titleArg = Inr a \<Longrightarrow> jszipLoaded"
  by (auto simp: createEpubBlob_def split: if_splits)

lemma createEpubBlob_files:
  "createEpubBlob True randomUUID htmlContent titleArg =
     Inr \<lparr> archiveFiles =
        [\<lparr> entryName = lit ''mimetype'', entryData = lit ''application/epub+zip'', entryDir = False,
            entryCompression = Some STORE \<rparr>,
         \<lparr> entryName = lit ''META-INF/'', entryData = [], entryDir = True, entryCompression = None \<rparr>,
         \<lparr> entryName = lit ''META-INF/container.xml'', entryData = containerXml, entryDir = False,
            entryCompression = None \<rparr>,
         \<lparr> entryName = lit ''OEBPS/'', entryData = [], entryDir = True, entryCompression = None \<rparr>,
         \<lparr> entryName = lit ''OEBPS/style.css'', entryData = css, entryDir = False, entryCompression = None \<rparr>,
         \<lparr> entryName = lit ''OEBPS/content.xhtml'',
            entryData = xhtmlContent (titleOrDefault titleArg) htmlContent, entryDir = False,
            entryCompression = None \<rparr>,
         \<lparr> entryName = lit ''OEBPS/content.opf'',
            entryData = contentOpf (titleOrDefault titleArg) (lit ''urn:uuid:'' @ randomUUID),
            entryDir = False, entryCompression = None \<rparr>,
         \<lparr> entryName = lit ''OEBPS/toc.ncx'',
            entryData = tocNcx (lit ''urn:uuid:'' @ randomUUID) (titleOrDefault titleArg),
            entryDir = False, entryCompression = None \<rparr>],
       archiveMimeType = lit ''application/epub+zip'' \<rparr>"
  by (simp add: createEpubBlob_def Let_def zipFile_def zipFolder_def hasEntry_def lit_append)

lemma length_utf8_pos: "1 \<le> length (utf8 n)"
  by (simp add: utf8_def)

lemma length_utf8_astral: "0x10000 \<le> n \<Longrightarrow> length (utf8 n) = 4"
  by (simp add: utf8_def)

lemma length_stringToUint8Array_ge: "length s \<le> length (stringToUint8Array s)"
proof -
  have "length s \<le> length (concat (map utf8 (scalarValues s)))"
  proof (induction s rule: scalarValues.induct)
    case 1
    show ?case by simp
  next
    case (2 c)
    show ?case using length_utf8_pos [of "scalarOf c"] by simp
  next
    case (3 c d cs)
    show ?case
    proof (cases "isHighSurrogate c \<and> isLowSurrogate d")
      case True
      have four: "length (utf8 (0x10000 + (unat c - 0xD800) * 0x400 + (unat d - 0xDC00))) = 4"
        by (rule length_utf8_astral) simp
      have "length cs \<le> length (concat (map utf8 (scalarValues cs)))"
        using True by (rule "3.IH"(1))
      then show ?thesis
        using True four by simp
    next
      case False
      have "length (d # cs) \<le> length (concat (map utf8 (scalarValues (d # cs))))"
        using False by (rule "3.IH"(2))
      then show ?thesis
        using False length_utf8_pos [of "scalarOf c"] by auto
    qed
  qed
  then show ?thesis by (simp add: stringToUint8Array_def)
qed

lemma length_fullContent: "length (fullContent t h) = 63 + 2 * length t + length h"
  by (simp add: fullContent_def)

lemma contentOpf_split:
  \<open>\<exists>before after. contentOpf t u = before @ u @ after
      \<and> endsWith before (lit ''<dc:identifier id="BookID" opf:scheme="UUID">'')
      \<and> startsWith after (lit ''</dc:identifier>'')\<close>
proof -
  define A where \<open>A = textLines
       [''<?xml version="1.0" encoding="UTF-8"?>'',
        ''<package xmlns="http://www.idpf.org/2007/opf" unique-identifier="BookID" version="2.0">'',
        ''   <metadata xmlns:dc="http://purl.org/dc/elements/1.1/" xmlns:opf="http://www.idpf.org/2007/opf">'',
        ''      <dc:title>'']\<close>
  define B where \<open>B = textLines
       [''</dc:title>'',
        ''      <dc:language>en</dc:language>'',
        ''      <dc:identifier id="BookID" opf:scheme="UUID">'']\<close>
  define C where \<open>C = textLines
       [''</dc:identifier>'',
        ''      <dc:creator>Offline Converter</dc:creator>'',
        ''   </metadata>'',
        ''   <manifest>'',
        ''      <item id="ncx" href="toc.ncx" media-type="application/x-dtbncx+xml"/>'',
        ''      <item id="style" href="style.css" media-type="text/css"/>'',
        ''      <item id="content" href="content.xhtml" media-type="application/xhtml+xml"/>'',
        ''   </manifest>'',
        ''   <spine toc="ncx">'',
        ''      <itemref idref="content"/>'',
        ''   </spine>'',
        ''</package>'']\<close>
  have eq: "contentOpf t u = ((A @ t) @ B) @ u @ C"
    by (simp add: contentOpf_def A_def B_def C_def)
  have \<open>endsWith B (lit ''<dc:identifier id="BookID" opf:scheme="UUID">'')\<close>
    unfolding B_def by code_simp
  then have e: \<open>endsWith ((A @ t) @ B) (lit ''<dc:identifier id="BookID" opf:scheme="UUID">'')\<close>
    by (rule endsWith_append)
  have s: \<open>startsWith C (lit ''</dc:identifier>'')\<close>
    unfolding C_def by code_simp
  show ?thesis
    using eq e s by blast
qed

lemma tocNcx_split:
  \<open>\<exists>before after. tocNcx u t = before @ u @ after
      \<and> endsWith before (lit ''<meta name="dtb:uid" content="'')
      \<and> startsWith after (lit ''"/>'')\<close>
proof -
  define A where \<open>A = textLines
       [''<?xml version="1.0" encoding="UTF-8"?>'',
        ''<ncx xmlns="http://www.daisy.org/z3986/2005/ncx/" version="2005-1">'',
        ''   <head>'',
        ''      <meta name="dtb:uid" content="'']\<close>
  define B where \<open>B = textLines
       [''"/>'',
        ''      <meta name="dtb:depth" content="1"/>'',
        ''      <meta name="dtb:totalPageCount" content="0"/>'',
        ''      <meta name="dtb:maxPageNumber" content="0"/>'',
        ''   </head>'',
        ''   <docTitle>'',
        ''      <text>'']\<close>
  define C where \<open>C = textLines
       [''</text>'',
        ''   </docTitle>'',
        ''   <navMap>'',
        ''      <navPoint id="navPoint-1" playOrder="1">'',
        ''         <navLabel>'',
        ''            <text>Start</text>'',
        ''         </navLabel>'',
        ''         <content src="content.xhtml"/>'',
        ''      </navPoint>'',
        ''   </navMap>'',
        ''</ncx>'']\<close>
  have eq: "tocNcx u t = A @ u @ (B @ t @ C)"
    by (simp add: tocNcx_def A_def B_def C_def)
  have e: \<open>endsWith A (lit ''<meta name="dtb:uid" content="'')\<close>
    unfolding A_def by code_simp
  have \<open>startsWith B (lit ''"/>'')\<close>
    unfolding B_def by code_simp
  then have s: \<open>startsWith (B @ t @ C) (lit ''"/>'')\<close>
    by (rule startsWith_append)
  show ?thesis
    using eq e s by blast
qed

text \<open>
  Claim C5. Whenever the packager returns an archive, the archive's first entry is
  \<open>mimetype\<close>, a file holding \<open>application/epub+zip\<close> and stored with compression STORE,
  and the string \<open>urn:uuid:\<close> followed by this invocation's UUID stands both in
  \<open>content.opf\<close>, between the \<open>dc:identifier\<close> tags of the package identifier, and in
  \<open>toc.ncx\<close>, as the content of the \<open>dtb:uid\<close> meta element.
\<close>

theorem epub_mimetype_first_uuid_shared:
  assumes "createEpubBlob jszipLoaded randomUUID htmlContent titleArg = Inr a"
  shows \<open>archiveFiles a \<noteq> []
    \<and> hd (archiveFiles a) = \<lparr> entryName = lit ''mimetype'', entryData = lit ''application/epub+zip'',
           entryDir = False, entryCompression = Some STORE \<rparr>
    \<and> (\<exists>opfBefore opfAfter ncxBefore ncxAfter.
          zipData (lit ''OEBPS/content.opf'') (archiveFiles a)
            = Some (opfBefore @ (lit ''urn:uuid:'' @ randomUUID) @ opfAfter)
        \<and> endsWith opfBefore (lit ''<dc:identifier id="BookID" opf:scheme="UUID">'')
        \<and> startsWith opfAfter (lit ''</dc:identifier>'')
        \<and> zipData (lit ''OEBPS/toc.ncx'') (archiveFiles a)
            = Some (ncxBefore @ (lit ''urn:uuid:'' @ randomUUID) @ ncxAfter)
        \<and> endsWith ncxBefore (lit ''<meta name="dtb:uid" content="'')
        \<and> startsWith ncxAfter (lit ''"/>''))\<close>
proof -
  have loaded: jszipLoaded
    using assms by (rule createEpubBlob_Inr)
  define t where "t = titleOrDefault titleArg"
  define u where "u = lit ''urn:uuid:'' @ randomUUID"
  have files: "archiveFiles a =
        [\<lparr> entryName = lit ''mimetype'', entryData = lit ''application/epub+zip'', entryDir = False,
            entryCompression = Some STORE \<rparr>,
         \<lparr> entryName = lit ''META-INF/'', entryData = [], entryDir = True, entryCompression = None \<rparr>,
         \<lparr> entryName = lit ''META-INF/container.xml'', entryData = containerXml, entryDir = False,
            entryCompression = None \<rparr>,
         \<lparr> entryName = lit ''OEBPS/'', entryData = [], entryDir = True, entryCompression = None \<rparr>,
         \<lparr> entryName = lit ''OEBPS/style.css'', entryData = css, entryDir = False, entryCompression = None \<rparr>,
         \<lparr> entryName = lit ''OEBPS/content.xhtml'', entryData = xhtmlContent t htmlContent, entryDir = False,
            entryCompression = None \<rparr>,
         \<lparr> entryName = lit ''OEBPS/content.opf'', entryData = contentOpf t u,
            entryDir = False, entryCompression = None \<rparr>,
         \<lparr> entryName = lit ''OEBPS/toc.ncx'', entryData = tocNcx u t,
            entryDir = False, entryCompression = None \<rparr>]"
    using assms loaded createEpubBlob_files [of randomUUID htmlContent titleArg]
    by (auto simp: t_def u_def)
  have opf: "zipData (lit ''OEBPS/content.opf'') (archiveFiles a) = Some (contentOpf t u)"
    by (simp add: files zipData_def)
  have ncx: "zipData (lit ''OEBPS/toc.ncx'') (archiveFiles a) = Some (tocNcx u t)"
    by (simp add: files zipData_def)
  obtain ob oa where o: \<open>contentOpf t u = ob @ u @ oa\<close>
      \<open>endsWith ob (lit ''<dc:identifier id="BookID" opf:scheme="UUID">'')\<close>
      \<open>startsWith oa (lit ''</dc:identifier>'')\<close>
    using contentOpf_split [of t u] by blast
  obtain nb na where n: \<open>tocNcx u t = nb @ u @ na\<close>
      \<open>endsWith nb (lit ''<meta name="dtb:uid" content="'')\<close>
      \<open>startsWith na (lit ''"/>'')\<close>
    using tocNcx_split [of u t] by blast
  have first: \<open>archiveFiles a \<noteq> []
    \<and> hd (archiveFiles a) = \<lparr> entryName = lit ''mimetype'', entryData = lit ''application/epub+zip'',
           entryDir = False, entryCompression = Some STORE \<rparr>\<close>
    by (simp add: files)
  show ?thesis
    using first opf ncx o n unfolding u_def by metis
qed

theorem epub_mimetype_first_uuid_shared_witness:
  \<open>case createEpubBlob True (lit ''123e4567-e89b-12d3-a456-426614174000'') (lit ''<p>x</p>'') (Some (lit ''T'')) of
     Inl e \<Rightarrow> False
   | Inr a \<Rightarrow> hd (archiveFiles a) = \<lparr> entryName = lit ''mimetype'', entryData = lit ''application/epub+zip'',
           entryDir = False, entryCompression = Some STORE \<rparr>\<close>
proof -
  obtain a where a: "createEpubBlob True (lit ''123e4567-e89b-12d3-a456-426614174000'') (lit ''<p>x</p>'')
      (Some (lit ''T'')) = Inr a"
    by (simp add: createEpubBlob_files)
  show ?thesis
    using a epub_mimetype_first_uuid_shared [OF a, THEN conjunct2, THEN conjunct1] by simp
qed

section \<open>Theorems: the normalizer and the empty document\<close>

text \<open>
  Claim C6, as stated, fails: the error's message is a fixed text. For a PNG file it names
  neither the media type \<open>image/png\<close> nor the extension.
\<close>

theorem unsupported_format_counterexample:
  "convertLocalFile asciiLower \<lparr> mammoth = None, pdfjsLib = None \<rparr>
      \<lparr> file_type = lit ''image/png'', file_name = lit ''photo.png'' \<rparr> [] None
     = Some (Inl (Error (lit ''Failed to convert locally: Unsupported file type for offline conversion.'')))
   \<and> \<not> stringIncludes (lit ''Failed to convert locally: Unsupported file type for offline conversion.'')
          (lit ''image/png'')
   \<and> \<not> stringIncludes (lit ''Failed to convert locally: Unsupported file type for offline conversion.'')
          (lit ''png'')"
  by code_simp

text \<open>
  Claim C6, amended. An input whose media type is none of the HTML, OOXML and PDF types and
  whose lower-cased name ends with none of \<open>.html\<close>, \<open>.htm\<close>, \<open>.docx\<close>, \<open>.pdf\<close> fails
  with an \<open>Error\<close> whose message is the fixed text
  \<open>Failed to convert locally: Unsupported file type for offline conversion.\<close>
\<close>

theorem unsupported_format_error:
  assumes "file_type f \<noteq> lit ''text/html''"
    and "file_type f \<noteq> lit ''application/vnd.openxmlformats-officedocument.wordprocessingml.document''"
    and "file_type f \<noteq> lit ''application/pdf''"
    and "\<not> endsWith (toLowerCase (file_name f)) (lit ''.html'')"
    and "\<not> endsWith (toLowerCase (file_name f)) (lit ''.htm'')"
    and "\<not> endsWith (toLowerCase (file_name f)) (lit ''.docx'')"
    and "\<not> endsWith (toLowerCase (file_name f)) (lit ''.pdf'')"
  shows "convertLocalFile toLowerCase win f arrayBuffer textData
     = Some (Inl (Error (lit ''Failed to convert locally: Unsupported file type for offline conversion.'')))"
  using assms by (simp add: convertLocalFile_def convertBody_def lit_append)

theorem unsupported_format_error_witness:
  "file_type \<lparr> file_type = lit ''image/png'', file_name = lit ''Photo.PNG'' \<rparr> \<noteq> lit ''text/html''
   \<and> \<not> endsWith (asciiLower (file_name \<lparr> file_type = lit ''image/png'', file_name = lit ''Photo.PNG'' \<rparr>))
          (lit ''.pdf'')
   \<and> convertLocalFile asciiLower \<lparr> mammoth = None, pdfjsLib = None \<rparr>
        \<lparr> file_type = lit ''image/png'', file_name = lit ''Photo.PNG'' \<rparr> [] None
      = Some (Inl (Error (lit ''Failed to convert locally: Unsupported file type for offline conversion.'')))"
proof -
  define f where "f = \<lparr> file_type = lit ''image/png'', file_name = lit ''Photo.PNG'' \<rparr>"
  have t: "file_type f \<noteq> lit ''text/html''"
      "file_type f \<noteq> lit ''application/vnd.openxmlformats-officedocument.wordprocessingml.document''"
      "file_type f \<noteq> lit ''application/pdf''"
    by (simp_all add: f_def)
  have n: "asciiLower (file_name f) = lit ''photo.png''"
    unfolding f_def by code_simp
  have e: "\<not> endsWith (asciiLower (file_name f)) (lit ''.html'')"
      "\<not> endsWith (asciiLower (file_name f)) (lit ''.htm'')"
      "\<not> endsWith (asciiLower (file_name f)) (lit ''.docx'')"
      "\<not> endsWith (asciiLower (file_name f)) (lit ''.pdf'')"
    unfolding n by (code_simp, code_simp, code_simp, code_simp)
  show ?thesis
    using t(1) e(4) unsupported_format_error [of f asciiLower "\<lparr> mammoth = None, pdfjsLib = None \<rparr>" "[]" None, OF t e]
    unfolding f_def by simp
qed

text \<open>
  Claim C7, as stated, fails: the text record is never empty, since the encoder wraps the
  HTML in a document with the title. For the empty HTML and the title \<open>book\<close> the text
  record has 71 bytes and the buffer 413.
\<close>

theorem empty_html_mobi_counterexample:
  "(case createMobiBlob 0 [] (Some (lit ''book'')) of
      Inl e \<Rightarrow> False
    | Inr b \<Rightarrow> length (blobBytes b) = 413
        \<and> length (blobBytes b) \<noteq> 342
        \<and> length (drop 342 (blobBytes b)) = 71
        \<and> drop 342 (blobBytes b)
            = stringToUint8Array (lit ''<html><head><title>book</title></head><body><h1>book</h1></body></html>''))"
proof -
  obtain hdr where h: "createMobiBlob 0 [] (Some (lit ''book''))
        = Inr \<lparr> blobBytes = hdr @ stringToUint8Array (fullContent (titleOrDefault (Some (lit ''book''))) []),
                blobType = lit ''application/x-mobipocket-ebook'' \<rparr>"
      "length hdr = 342"
    using createMobiBlob_layout [of 0 "[]" "Some (lit ''book'')"] by blast
  have c: "stringToUint8Array (fullContent (titleOrDefault (Some (lit ''book''))) [])
        = stringToUint8Array (lit ''<html><head><title>book</title></head><body><h1>book</h1></body></html>'')"
    by code_simp
  have l: "length (stringToUint8Array
        (lit ''<html><head><title>book</title></head><body><h1>book</h1></body></html>'')) = 71"
    by code_simp
  show ?thesis
    using h l by (simp add: c)
qed

text \<open>
  Claim C7, amended. The normalizer turns a zero-byte HTML input, recognised by its media
  type or by its name, into the empty string. From it the EPUB packager, with the archive
  builder loaded, returns the archive of its eight entries, whose \<open>content.xhtml\<close> is the
  document template with an empty body; and the MOBI encoder returns a buffer of the 342
  header bytes plus the text record, which holds the UTF-8 bytes of the title wrapper around
  the empty body: at least 63 bytes, never zero.
\<close>

theorem empty_html_conversion:
  assumes "file_type f = lit ''text/html''
      \<or> endsWith (toLowerCase (file_name f)) (lit ''.html'')
      \<or> endsWith (toLowerCase (file_name f)) (lit ''.htm'')"
  shows "convertLocalFile toLowerCase win f arrayBuffer (Some []) = Some (Inr [])
    \<and> (\<exists>a. createEpubBlob True randomUUID [] titleArg = Inr a
          \<and> map entryName (archiveFiles a) =
              [lit ''mimetype'', lit ''META-INF/'', lit ''META-INF/container.xml'', lit ''OEBPS/'',
               lit ''OEBPS/style.css'', lit ''OEBPS/content.xhtml'', lit ''OEBPS/content.opf'',
               lit ''OEBPS/toc.ncx'']
          \<and> zipData (lit ''OEBPS/content.xhtml'') (archiveFiles a)
              = Some (xhtmlContent (titleOrDefault titleArg) []))
    \<and> (\<exists>buf. createMobiBlob dateNow [] titleArg
            = Inr \<lparr> blobBytes = buf, blobType = lit ''application/x-mobipocket-ebook'' \<rparr>
          \<and> drop 342 buf = stringToUint8Array (fullContent (titleOrDefault titleArg) [])
          \<and> length buf = 342 + length (drop 342 buf)
          \<and> 63 \<le> length (drop 342 buf))"
proof (intro conjI)
  show "convertLocalFile toLowerCase win f arrayBuffer (Some []) = Some (Inr [])"
    using assms by (auto simp: convertLocalFile_def convertBody_def)
next
  show "\<exists>a. createEpubBlob True randomUUID [] titleArg = Inr a
          \<and> map entryName (archiveFiles a) =
              [lit ''mimetype'', lit ''META-INF/'', lit ''META-INF/container.xml'', lit ''OEBPS/'',
               lit ''OEBPS/style.css'', lit ''OEBPS/content.xhtml'', lit ''OEBPS/content.opf'',
               lit ''OEBPS/toc.ncx'']
          \<and> zipData (lit ''OEBPS/content.xhtml'') (archiveFiles a)
              = Some (xhtmlContent (titleOrDefault titleArg) [])"
    by (simp add: createEpubBlob_files zipData_def)
next
  define content where "content = stringToUint8Array (fullContent (titleOrDefault titleArg) [])"
  obtain hdr where h: "createMobiBlob dateNow [] titleArg
            = Inr \<lparr> blobBytes = hdr @ content, blobType = lit ''application/x-mobipocket-ebook'' \<rparr>"
      "length hdr = 342"
    using createMobiBlob_layout [of dateNow "[]" titleArg] unfolding content_def by blast
  have "length (fullContent (titleOrDefault titleArg) []) \<le> length content"
    unfolding content_def by (rule length_stringToUint8Array_ge)
  then have l: "63 \<le> length content"
    by (simp add: length_fullContent)
  show "\<exists>buf. createMobiBlob dateNow [] titleArg
            = Inr \<lparr> blobBytes = buf, blobType = lit ''application/x-mobipocket-ebook'' \<rparr>
          \<and> drop 342 buf = stringToUint8Array (fullContent (titleOrDefault titleArg) [])
          \<and> length buf = 342 + length (drop 342 buf)
          \<and> 63 \<le> length (drop 342 buf)"
    using h l by (intro exI [of _ "hdr @ content"]) (simp add: content_def)
qed

theorem empty_html_conversion_witness:
  "endsWith (asciiLower (file_name \<lparr> file_type = [], file_name = lit ''Empty.HTML'' \<rparr>)) (lit ''.html'')
   \<and> convertLocalFile asciiLower \<lparr> mammoth = None, pdfjsLib = None \<rparr>
        \<lparr> file_type = [], file_name = lit ''Empty.HTML'' \<rparr> [] (Some []) = Some (Inr [])
   \<and> file_type \<lparr> file_type = lit ''text/html'', file_name = lit ''empty'' \<rparr> = lit ''text/html''
   \<and> convertLocalFile asciiLower \<lparr> mammoth = None, pdfjsLib = None \<rparr>
        \<lparr> file_type = lit ''text/html'', file_name = lit ''empty'' \<rparr> [] (Some []) = Some (Inr [])"
proof -
  have n: "endsWith (asciiLower (file_name \<lparr> file_type = [], file_name = lit ''Empty.HTML'' \<rparr>))
      (lit ''.html'')"
    by code_simp
  have t: "file_type \<lparr> file_type = lit ''text/html'', file_name = lit ''empty'' \<rparr> = lit ''text/html''"
    by simp
  have c1: "convertLocalFile asciiLower \<lparr> mammoth = None, pdfjsLib = None \<rparr>
        \<lparr> file_type = [], file_name = lit ''Empty.HTML'' \<rparr> [] (Some []) = Some (Inr [])"
    using n empty_html_conversion [of "\<lparr> file_type = [], file_name = lit ''Empty.HTML'' \<rparr>" asciiLower
        "\<lparr> mammoth = None, pdfjsLib = None \<rparr>" "[]", THEN conjunct1]
    by blast
  have c2: "convertLocalFile asciiLower \<lparr> mammoth = None, pdfjsLib = None \<rparr>
        \<lparr> file_type = lit ''text/html'', file_name = lit ''empty'' \<rparr> [] (Some []) = Some (Inr [])"
    using t empty_html_conversion [of "\<lparr> file_type = lit ''text/html'', file_name = lit ''empty'' \<rparr>"
        asciiLower "\<lparr> mammoth = None, pdfjsLib = None \<rparr>" "[]", THEN conjunct1]
    by blast
  show ?thesis using n t c1 c2 by blast
qed

end
